theory Spec2Isabelle
  imports Main "HOL-Library.Sublist" "HOL-Library.Multiset"
begin

section \<open>JavaScript strings\<close>

text \<open>
  A JavaScript string is a sequence of UTF-16 code units, and \<open>length\<close>, \<open>slice\<close>,
  \<open>indexOf\<close> and the regular expression \<open>/[^\w]/g\<close> (no \<open>u\<close> flag) all count and
  read code units. A code unit is modelled as a natural number, so that the ellipsis
  U+2026 that \<open>truncate\<close> appends is one character, as it is in the program.
  \<open>js\<close> embeds an ASCII literal of the source.
\<close>

type_synonym code_unit = nat
type_synonym jsstring = "code_unit list"

definition js :: "string \<Rightarrow> jsstring" where
  "js s = map of_char s"

definition ellipsis :: code_unit where
  "ellipsis = 8230"

definition hyphen :: code_unit where
  "hyphen = 45"

definition space :: code_unit where
  "space = 32"

definition newline :: code_unit where
  "newline = 10"

text \<open>
  The characters \<open>String.prototype.trim\<close> removes: the WhiteSpace and LineTerminator
  productions of ECMAScript (TAB, LF, VT, FF, CR, SP, NBSP, U+1680, U+2000..U+200A,
  U+2028, U+2029, U+202F, U+205F, U+3000, U+FEFF).
\<close>

definition is_whitespace :: "code_unit \<Rightarrow> bool" where
  "is_whitespace c \<longleftrightarrow>
     (9 \<le> c \<and> c \<le> 13) \<or> c = 32 \<or> c = 160 \<or> c = 5760 \<or> (8192 \<le> c \<and> c \<le> 8202)
     \<or> c = 8232 \<or> c = 8233 \<or> c = 8239 \<or> c = 8287 \<or> c = 12288 \<or> c = 65279"

definition trim :: "jsstring \<Rightarrow> jsstring" where
  "trim s = rev (dropWhile is_whitespace (rev (dropWhile is_whitespace s)))"

text \<open>The class \<open>\w\<close> of a regular expression without flags: \<open>[A-Za-z0-9_]\<close>.\<close>

definition is_word_char :: "code_unit \<Rightarrow> bool" where
  "is_word_char c \<longleftrightarrow>
     (65 \<le> c \<and> c \<le> 90) \<or> (97 \<le> c \<and> c \<le> 122) \<or> (48 \<le> c \<and> c \<le> 57) \<or> c = 95"

text \<open>\<open>s.replaceAll(/[^\w]/g, '')\<close>: every code unit outside \<open>\w\<close> is deleted.\<close>

definition strip_non_word :: "jsstring \<Rightarrow> jsstring" where
  "strip_non_word s = filter is_word_char s"

text \<open>\<open>text.slice(0, e)\<close>: a negative end counts from the end of the string.\<close>

definition slice0 :: "jsstring \<Rightarrow> int \<Rightarrow> jsstring" where
  "slice0 s e = (if e < 0 then take (length s - nat (- e)) s else take (nat e) s)"

text \<open>\<open>s.includes(t)\<close>: \<open>t\<close> occurs in \<open>s\<close> as a contiguous run of code units.\<close>

fun includes_str :: "jsstring \<Rightarrow> jsstring \<Rightarrow> bool" where
  "includes_str [] t = (t = [])"
| "includes_str (c # cs) t = (prefix t (c # cs) \<or> includes_str cs t)"

text \<open>\<open>s.indexOf(c)\<close> for a one-character pattern: the first index, or -1.\<close>

definition indexOf :: "jsstring \<Rightarrow> code_unit \<Rightarrow> int" where
  "indexOf s c = (if c \<in> set s then int (length (takeWhile (\<lambda>x. x \<noteq> c) s)) else - 1)"

text \<open>
  \<open>s.split(sep)\<close> for a non-empty separator: the pieces between the occurrences of
  \<open>sep\<close>, found left to right without overlap. The result is never empty:
  \<open>''.split(sep)\<close> is \<open>['']\<close>. \<open>acc\<close> holds the current piece, reversed.
\<close>

function split_from :: "jsstring \<Rightarrow> jsstring \<Rightarrow> jsstring \<Rightarrow> jsstring list" where
  "split_from sep acc [] = [rev acc]"
| "split_from sep acc (c # cs) =
     (if sep \<noteq> [] \<and> prefix sep (c # cs)
      then rev acc # split_from sep [] (drop (length sep - 1) cs)
      else split_from sep (c # acc) cs)"
  by pat_completeness auto
termination
  by (relation "measure (\<lambda>(sep, acc, s). length s)") auto

definition split :: "jsstring \<Rightarrow> jsstring \<Rightarrow> jsstring list" where
  "split s sep = split_from sep [] s"

text \<open>\<open>parts.join(sep)\<close>.\<close>

fun join :: "jsstring \<Rightarrow> jsstring list \<Rightarrow> jsstring" where
  "join sep [] = []"
| "join sep [x] = x"
| "join sep (x # y # ys) = x @ sep @ join sep (y # ys)"

text \<open>
  A value that may be \<open>undefined\<close> is an option. \<open>truthy\<close> is the test of \<open>||\<close>,
  \<open>?:\<close> and \<open>filter(Boolean)\<close> on a string or \<open>undefined\<close>: both \<open>undefined\<close> and the
  empty string are falsy. \<open>str_of\<close> is the conversion inside a template literal.
\<close>

definition truthy :: "jsstring option \<Rightarrow> bool" where
  "truthy v = (case v of None \<Rightarrow> False | Some s \<Rightarrow> s \<noteq> [])"

definition or_else :: "jsstring option \<Rightarrow> jsstring option \<Rightarrow> jsstring option" where
  "or_else a b = (if truthy a then a else b)"

definition str_of :: "jsstring option \<Rightarrow> jsstring" where
  "str_of v = (case v of None \<Rightarrow> js ''undefined'' | Some s \<Rightarrow> s)"

section \<open>What the program takes from its libraries\<close>

text \<open>
  The functions of the JavaScript runtime and of the \<open>ansi-colors\<close> package that the
  program calls and whose tables are not part of its source are parameters of the
  model, so that every theorem below holds whatever they compute:
  \<^item> \<open>lowerNonAscii s i\<close>: what \<open>toLowerCase\<close> puts in place of the non-ASCII code unit
    at index \<open>i\<close> of \<open>s\<close> (the Unicode case tables; the whole string is passed because
    a few mappings depend on the context, and the second half of a surrogate pair can
    map to the empty string);
  \<^item> \<open>toNumber\<close>: \<open>Number(timestamp)\<close> on the \<open>%at\<close> field of a log line, an integer
    number of seconds (git prints decimal digits there, and \<open>Number('')\<close> is 0 on the
    one empty line of an empty log; \<open>NaN\<close> is not modelled);
  \<^item> \<open>getDate ms\<close>: \<open>new Date(ms).getDate()\<close>, the day of the month in the local time
    zone; \<open>toDateString ms\<close>: \<open>new Date(ms).toDateString()\<close> (a timestamp outside
    the range of \<open>Date\<close>, whose day is \<open>NaN\<close>, is not modelled);
  \<^item> \<open>dim\<close>, \<open>green\<close>: the styles of \<open>ansi-colors\<close>; \<open>c.dim\<close> is also called on
    \<open>commit.hash\<close>, which may be \<open>undefined\<close>.
\<close>

record platform =
  lowerNonAscii :: "jsstring \<Rightarrow> nat \<Rightarrow> jsstring"
  toNumber :: "jsstring \<Rightarrow> int"
  getDate :: "int \<Rightarrow> int"
  toDateString :: "int \<Rightarrow> jsstring"
  dim :: "jsstring option \<Rightarrow> jsstring"
  green :: "jsstring \<Rightarrow> jsstring"

section \<open>The data of the program\<close>

text \<open>
  The objects \<open>getLatestCommits\<close> builds. \<open>hash\<close>, \<open>fullHash\<close> and \<open>author\<close> come from
  destructuring the fields of a log line and are \<open>undefined\<close> on a line with too few
  fields (the one empty line of an empty log); \<open>timestamp\<close> is in milliseconds.
\<close>

record commit =
  branch :: jsstring
  timestamp :: int
  hash :: "jsstring option"
  fullHash :: "jsstring option"
  author :: "jsstring option"
  message :: jsstring

text \<open>
  An entry of the prompt's list: a separator (\<open>role: 'separator'\<close>, with or without a
  \<open>message\<close>) or a commit (\<open>name\<close>, \<open>message\<close>, \<open>query\<close>; the constant
  \<open>indicator: '>'\<close> is left out).
\<close>

datatype choice =
  Separator (sep_message: "jsstring option")
| Commit_choice (choice_name: "jsstring option") (choice_message: jsstring)
    (choice_query: jsstring)

fun is_separator :: "choice \<Rightarrow> bool" where
  "is_separator (Separator m) = True"
| "is_separator (Commit_choice n m q) = False"

datatype error =
  Command_failed jsstring
| Missing_commit jsstring
| TypeError
| Prompt_cancelled
| Clipboard_failed

text \<open>
  The parsed command line (\<open>values\<close> of \<open>parseArgs\<close>) and the environment variables
  \<open>CHERRY_QUICK_DEFAULT_FROM_BRANCH\<close>, \<open>..._INCLUDE_BRANCH\<close>, \<open>..._TO_BRANCH\<close>; an
  absent option or variable is \<open>undefined\<close>. \<open>CHERRY_QUICK_DEFAULT_ROWS\<close> only sets the
  height of the prompt and is left out.
\<close>

record arguments =
  arg_from :: "jsstring option"
  arg_to :: "jsstring option"
  arg_include :: "jsstring option"
  arg_branch :: "jsstring option"
  arg_help :: bool

record environment =
  env_from :: "jsstring option"
  env_include :: "jsstring option"
  env_to :: "jsstring option"

text \<open>
  What the program meets when it runs: \<open>shell cmd\<close> is the output of \<open>execSync(cmd)\<close>,
  or \<open>None\<close> when it throws (the command fails); \<open>autocomplete choices\<close> is the result
  of the multi-select prompt, the chosen names, or \<open>None\<close> when its promise is rejected
  (the user cancels); \<open>confirm_copy\<close> is the answer to the confirmation, or \<open>None\<close> when
  that prompt is cancelled; \<open>clipboard_ok\<close> tells whether \<open>clipboardy.writeSync\<close>
  returns.
\<close>

record world =
  shell :: "jsstring \<Rightarrow> jsstring option"
  autocomplete :: "choice list \<Rightarrow> jsstring list option"
  confirm_copy :: "bool option"
  clipboard_ok :: bool

text \<open>
  What the program does to the outside, in order: a line printed by \<open>console.log\<close>
  (\<open>Log_returned n\<close> is the line \<open>Returned n lines in t ms\<close> of \<open>executeShellCommand\<close>,
  whose time is not modelled), a command passed to \<open>execSync\<close>, the two prompts, and a
  write to the clipboard. A run ends with \<open>process.exit(n)\<close>, by reaching the end of
  the module, or with an uncaught exception.
\<close>

datatype event =
  Log jsstring
| Log_returned nat
| Exec jsstring
| Ask_commits "choice list"
| Ask_copy
| Clipboard jsstring

datatype outcome =
  Exited nat
| Finished
| Thrown error

text \<open>The exit status of the process: Node exits with 1 on an uncaught exception.\<close>

fun exit_status :: "outcome \<Rightarrow> nat" where
  "exit_status (Exited n) = n"
| "exit_status Finished = 0"
| "exit_status (Thrown e) = 1"

section \<open>The utilities of cherry-quick.mjs\<close>

text \<open>
  \<^verbatim>\<open>
  function truncate(text, length) {
    if (text.length > length) {
      return text.slice(0, length - 1).trim() + '...'   // one character, U+2026
    }
    return text
  }
  \<close>
\<close>

definition truncate :: "jsstring \<Rightarrow> nat \<Rightarrow> jsstring" where
  "truncate text len =
     (if length text > len then trim (slice0 text (int len - 1)) @ [ellipsis] else text)"

text \<open>
  \<open>s.replaceAll(p, fn)\<close> for a one-character pattern \<open>p\<close>: every occurrence of \<open>p\<close> is
  replaced by what \<open>fn\<close> returns for its index (the callback's second argument), every
  other character stays.
\<close>

definition replaceAll_char :: "jsstring \<Rightarrow> code_unit \<Rightarrow> (nat \<Rightarrow> jsstring) \<Rightarrow> jsstring" where
  "replaceAll_char s p fn =
     concat (map (\<lambda>(index, c). if c = p then fn index else [c]) (enumerate 0 s))"

text \<open>
  \<^verbatim>\<open>
  function generatePullRequestTitleFromBranch(branch) {
    const firstDashIndex = branch.indexOf('-')
    return branch.replaceAll('-', (_, index) => index !== firstDashIndex ? ' ' : '-')
  }
  \<close>
\<close>

definition generatePullRequestTitleFromBranch :: "jsstring \<Rightarrow> jsstring" where
  "generatePullRequestTitleFromBranch branchName =
     (let firstDashIndex = indexOf branchName hyphen
      in replaceAll_char branchName hyphen
           (\<lambda>index. if int index \<noteq> firstDashIndex then [space] else [hyphen]))"

text \<open>
  The title as the specification words it: the first hyphen is kept, every other
  hyphen becomes a space.
\<close>

fun spaces_for_hyphens :: "jsstring \<Rightarrow> jsstring" where
  "spaces_for_hyphens [] = []"
| "spaces_for_hyphens (c # cs) = (if c = hyphen then space else c) # spaces_for_hyphens cs"

fun keep_first_hyphen :: "jsstring \<Rightarrow> jsstring" where
  "keep_first_hyphen [] = []"
| "keep_first_hyphen (c # cs) =
     (if c = hyphen then c # spaces_for_hyphens cs else c # keep_first_hyphen cs)"


section \<open>Lowercasing, choices and suggestions\<close>

text \<open>
  \<open>s.toLowerCase()\<close>: an ASCII capital letter becomes the small letter, every other
  ASCII character stays, and this does not depend on the neighbours; what replaces a
  code unit from 128 on is the platform's.
\<close>

definition ascii_lower :: "code_unit \<Rightarrow> code_unit" where
  "ascii_lower c = (if 65 \<le> c \<and> c \<le> 90 then c + 32 else c)"

definition toLowerCase :: "platform \<Rightarrow> jsstring \<Rightarrow> jsstring" where
  "toLowerCase p s =
     concat (map (\<lambda>(i, c). if c < 128 then [ascii_lower c] else lowerNonAscii p s i)
                 (enumerate 0 s))"

text \<open>The first error of a list of results, or all the values.\<close>

fun sequence :: "(error + 'a) list \<Rightarrow> error + 'a list" where
  "sequence [] = Inr []"
| "sequence (Inl e # rs) = Inl e"
| "sequence (Inr x # rs) = (case sequence rs of Inl e \<Rightarrow> Inl e | Inr xs \<Rightarrow> Inr (x # xs))"

text \<open>
  \<^verbatim>\<open>
  suggest: (typed, choices) => {
    return choices
      .filter((choice) => {
        if (choice.role === 'separator') return true
        return choice.query.includes(typed.toLowerCase())
      })
      .filter((choice, i, choices) => {
        if (choice.role !== 'separator') return true
        if (!choices[i + 1] || choices[i + 1]?.role === 'separator') return false
        return true
      })
  }
  \<close>
  The third argument of the second callback is the array that \<open>filter\<close> runs on,
  the result of the first \<open>filter\<close>; an index past its end reads \<open>undefined\<close>.
\<close>

definition matches :: "platform \<Rightarrow> jsstring \<Rightarrow> choice \<Rightarrow> bool" where
  "matches p typed choice =
     (case choice of
        Separator m \<Rightarrow> True
      | Commit_choice n m q \<Rightarrow> includes_str q (toLowerCase p typed))"

definition keeps :: "choice list \<Rightarrow> nat \<times> choice \<Rightarrow> bool" where
  "keeps choices = (\<lambda>(i, choice).
     if \<not> is_separator choice then True
     else if \<not> (i + 1 < length choices) \<or> is_separator (choices ! (i + 1)) then False
     else True)"

definition suggest :: "platform \<Rightarrow> jsstring \<Rightarrow> choice list \<Rightarrow> choice list" where
  "suggest p typed choices =
     (let matching = filter (matches p typed) choices
      in map snd (filter (keeps matching) (enumerate 0 matching)))"

text \<open>
  The list as the specification words it: a commit entry is shown when its key
  contains the lowercased query, a separator when at least one shown commit entry
  follows it before the next separator.
\<close>

fun suggest_spec :: "platform \<Rightarrow> jsstring \<Rightarrow> choice list \<Rightarrow> choice list" where
  "suggest_spec p typed [] = []"
| "suggest_spec p typed (Commit_choice n m q # cs) =
     (if includes_str q (toLowerCase p typed)
      then Commit_choice n m q # suggest_spec p typed cs
      else suggest_spec p typed cs)"
| "suggest_spec p typed (Separator m # cs) =
     (if \<exists>c \<in> set (takeWhile (\<lambda>c. \<not> is_separator c) cs). matches p typed c
      then Separator m # suggest_spec p typed cs
      else suggest_spec p typed cs)"

text \<open>No two separators side by side, and no separator at the end.\<close>

fun tidy :: "choice list \<Rightarrow> bool" where
  "tidy [] = True"
| "tidy [c] = (\<not> is_separator c)"
| "tidy (c # d # cs) = (\<not> (is_separator c \<and> is_separator d) \<and> tidy (d # cs))"

text \<open>
  The \<open>message\<close> of a commit's entry:
  \<^verbatim>\<open>
  const message = [
    includeBranch
      ? includeBranchCherryPickableFullHashes.includes(commit.fullHash)
        ? c.dim(includeBranch)
        : c.green(includeBranch)
      : undefined,
    c.dim(commit.hash),
    truncate(commit.message, 80),
    c.dim(truncate(commit.author, 20)),
  ].filter(Boolean).join(' ')
  \<close>
  \<open>truncate\<close> reads \<open>text.length\<close>, a TypeError when the author is \<open>undefined\<close>.
\<close>

definition commit_message ::
  "platform \<Rightarrow> jsstring option \<Rightarrow> jsstring list \<Rightarrow> commit \<Rightarrow> error + jsstring" where
  "commit_message p includeBranch includeHashes commit =
     (case author commit of
        None \<Rightarrow> Inl TypeError
      | Some a \<Rightarrow>
          Inr (join [space]
            (List.map_filter (\<lambda>v. if truthy v then v else None)
              [if truthy includeBranch
               then (if fullHash commit \<in> set (map Some includeHashes)
                     then Some (dim p includeBranch)
                     else Some (green p (str_of includeBranch)))
               else None,
               Some (dim p (hash commit)),
               Some (truncate (message commit) 80),
               Some (dim p (Some (truncate a 20)))])))"

text \<open>
  The search key of a commit's entry:
  \<^verbatim>\<open>
  query: `${commit.hash} ${commit.message} by ${commit.author}`
           .replaceAll(/[^\w]/g, '').toLowerCase()
  \<close>
\<close>

definition commit_query :: "platform \<Rightarrow> commit \<Rightarrow> jsstring" where
  "commit_query p commit =
     toLowerCase p (strip_non_word
       (str_of (hash commit) @ [space] @ message commit @ js '' by '' @ str_of (author commit)))"

text \<open>
  What the callback of \<open>flatMap\<close> returns for the commit at index \<open>i\<close>: the separator
  or \<open>false\<close> (here \<open>None\<close>), then the entry.
  \<^verbatim>\<open>
  const prevCommitDate = commits[i - 1] ? new Date(commits[i - 1].timestamp) : undefined
  const currCommitDate = new Date(commit.timestamp)
  return [
    (!prevCommitDate || currCommitDate.getDate() !== prevCommitDate.getDate())
      && { role: 'separator', message: formatDate(prevCommitDate || currCommitDate) },
    { name: commit.fullHash, message, query: ..., indicator: '>' }
  ]
  \<close>
\<close>

definition commit_rows ::
  "platform \<Rightarrow> jsstring option \<Rightarrow> jsstring list \<Rightarrow> commit list \<Rightarrow> nat
     \<Rightarrow> error + choice option list" where
  "commit_rows p includeBranch includeHashes commits i =
     (let commit = commits ! i in
      case commit_message p includeBranch includeHashes commit of
        Inl e \<Rightarrow> Inl e
      | Inr msg \<Rightarrow>
          (let prevCommitDate = (if i = 0 then None else Some (timestamp (commits ! (i - 1))));
               currCommitDate = timestamp commit
           in Inr
             [case prevCommitDate of
                None \<Rightarrow> Some (Separator (Some (toDateString p currCommitDate)))
              | Some prev \<Rightarrow>
                  if getDate p currCommitDate \<noteq> getDate p prev
                  then Some (Separator (Some (toDateString p prev)))
                  else None,
              Some (Commit_choice (fullHash commit) msg (commit_query p commit))]))"

text \<open>
  The \<open>choices\<close> of the prompt: the rows of every commit, a last separator without a
  message, and \<open>filter(Boolean)\<close> to drop each \<open>false\<close>.
\<close>

definition choices ::
  "platform \<Rightarrow> jsstring option \<Rightarrow> jsstring list \<Rightarrow> commit list \<Rightarrow> error + choice list" where
  "choices p includeBranch includeHashes commits =
     (case sequence (map (commit_rows p includeBranch includeHashes commits)
                         [0 ..< length commits]) of
        Inl e \<Rightarrow> Inl e
      | Inr rows \<Rightarrow> Inr (List.map_filter id (concat rows @ [Some (Separator None)])))"

section \<open>The command\<close>

text \<open>
  \<open>Array.prototype.sort\<close> with the comparator \<open>(a, b) => a.timestamp - b.timestamp\<close>:
  \<open>undefined\<close> elements go to the end without being compared, the others are sorted by
  timestamp, and the sort is stable.
\<close>

definition sort_by_timestamp :: "commit option list \<Rightarrow> commit option list" where
  "sort_by_timestamp xs =
     map Some (sort_key timestamp (List.map_filter id xs)) @ filter (\<lambda>x. x = None) xs"

text \<open>
  \<^verbatim>\<open>
  const cherryPickCommits = cherryPickCommitsFullHashes
    .map((fullHash) => fromBranchCherryPickableCommits.find(c => c.fullHash === fullHash))
    .sort((a, b) => a.timestamp - b.timestamp)
  \<close>
\<close>

definition find_commit :: "commit list \<Rightarrow> jsstring \<Rightarrow> commit option" where
  "find_commit commits h = List.find (\<lambda>c. fullHash c = Some h) commits"

definition cherryPickCommits :: "commit list \<Rightarrow> jsstring list \<Rightarrow> commit option list" where
  "cherryPickCommits candidates picked = sort_by_timestamp (map (find_commit candidates) picked)"

text \<open>
  \<^verbatim>\<open>
  const command = [
    ...cherryPickBranch ? [
      `git switch -c ${cherryPickBranch} origin/${toBranch}`,
    ] : [],
    ...cherryPickCommits.map(c => `git cherry-pick ${c.fullHash}`),
    ...cherryPickBranch ? [
      `git push -u origin ${cherryPickBranch}`,
      `gh pr create -a @me -t "${generatePullRequestTitleFromBranch(cherryPickBranch)}" -B ${toBranch} -H ${cherryPickBranch} -w`,
    ]: [],
  ].join(' && \\\n').trim()
  \<close>
  Reading \<open>c.fullHash\<close> of an \<open>undefined\<close> element is a TypeError.
\<close>

definition double_quote :: code_unit where
  "double_quote = 34"

definition backslash :: code_unit where
  "backslash = 92"

definition chain :: jsstring where
  "chain = js '' && '' @ [backslash, newline]"

definition switch_command :: "jsstring \<Rightarrow> jsstring \<Rightarrow> jsstring" where
  "switch_command cherryPickBranch toBranch =
     js ''git switch -c '' @ cherryPickBranch @ js '' origin/'' @ toBranch"

definition cherry_pick_command :: "commit \<Rightarrow> jsstring" where
  "cherry_pick_command c = js ''git cherry-pick '' @ str_of (fullHash c)"

definition push_command :: "jsstring \<Rightarrow> jsstring" where
  "push_command cherryPickBranch = js ''git push -u origin '' @ cherryPickBranch"

definition pr_command :: "jsstring \<Rightarrow> jsstring \<Rightarrow> jsstring" where
  "pr_command cherryPickBranch toBranch =
     js ''gh pr create -a @me -t '' @ [double_quote]
       @ generatePullRequestTitleFromBranch cherryPickBranch @ [double_quote]
       @ js '' -B '' @ toBranch @ js '' -H '' @ cherryPickBranch @ js '' -w''"

definition cherry_pick_lines :: "commit option list \<Rightarrow> error + jsstring list" where
  "cherry_pick_lines commits =
     sequence (map (\<lambda>c. case c of None \<Rightarrow> Inl TypeError
                                 | Some c \<Rightarrow> Inr (cherry_pick_command c)) commits)"

definition command_lines ::
  "jsstring option \<Rightarrow> jsstring \<Rightarrow> commit option list \<Rightarrow> error + jsstring list" where
  "command_lines cherryPickBranch toBranch commits =
     (case cherry_pick_lines commits of
        Inl e \<Rightarrow> Inl e
      | Inr picks \<Rightarrow>
          Inr ((if truthy cherryPickBranch
                then [switch_command (str_of cherryPickBranch) toBranch] else [])
               @ picks
               @ (if truthy cherryPickBranch
                  then [push_command (str_of cherryPickBranch),
                        pr_command (str_of cherryPickBranch) toBranch]
                  else [])))"

definition command ::
  "jsstring option \<Rightarrow> jsstring \<Rightarrow> commit option list \<Rightarrow> error + jsstring" where
  "command cherryPickBranch toBranch commits =
     (case command_lines cherryPickBranch toBranch commits of
        Inl e \<Rightarrow> Inl e
      | Inr lines \<Rightarrow> Inr (trim (join chain lines)))"


section \<open>The queries\<close>

text \<open>
  \<^verbatim>\<open>
  function executeShellCommand(command) {
    console.log('>', command)
    const startedAt = performance.now()
    const result = execSync(command, { encoding: 'utf-8', maxBuffer: 1024 * 1024 })
    console.log(`  Returned ${result.split('\n').length} lines in ${...}ms`)
    return result
  }
  \<close>
  A function of the program that acts on the outside returns the events it caused, in
  order, and its result or the exception it threw.
\<close>

definition executeShellCommand :: "world \<Rightarrow> jsstring \<Rightarrow> event list \<times> (error + jsstring)" where
  "executeShellCommand w cmd =
     (case shell w cmd of
        None \<Rightarrow> ([Log (js ''> '' @ cmd), Exec cmd], Inl (Command_failed cmd))
      | Some result \<Rightarrow>
          ([Log (js ''> '' @ cmd), Exec cmd, Log_returned (length (split result [newline]))],
           Inr result))"

text \<open>
  \<^verbatim>\<open>
  function getCherryPickableFullHashes(fromBranch, toBranch) {
    return executeShellCommand(`git cherry origin/${toBranch} origin/${fromBranch}`)
      .split('\n')
      .filter(line => line.startsWith('+'))
      .map(line => line.slice(2))
  }
  \<close>
\<close>

definition cherry_query :: "jsstring \<Rightarrow> jsstring \<Rightarrow> jsstring" where
  "cherry_query fromBranch toBranch =
     js ''git cherry origin/'' @ toBranch @ js '' origin/'' @ fromBranch"

definition getCherryPickableFullHashes ::
  "world \<Rightarrow> jsstring \<Rightarrow> jsstring \<Rightarrow> event list \<times> (error + jsstring list)" where
  "getCherryPickableFullHashes w fromBranch toBranch =
     (case executeShellCommand w (cherry_query fromBranch toBranch) of
        (evs, Inl e) \<Rightarrow> (evs, Inl e)
      | (evs, Inr result) \<Rightarrow>
          (evs, Inr (map (drop 2) (filter (prefix (js ''+'')) (split result [newline])))))"

text \<open>
  \<^verbatim>\<open>
  function getLatestCommits(fromBranch, toBranch) {
    const delimiter = ':;:'
    return executeShellCommand(`git --no-pager log --pretty=format:"%at${delimiter}%h${delimiter}%H${delimiter}%an${delimiter}%s" origin/${fromBranch} --not origin/${toBranch}`)
      .split('\n')
      .map(line => {
        const [timestamp, hash, fullHash, author, ...message] = line.split(delimiter)
        return {
          branch: fromBranch,
          timestamp: Number(timestamp) * 1000, // it's in seconds
          hash, fullHash, author,
          message: message.join(delimiter),
        }
      })
  }
  \<close>
  A field that the line does not have is \<open>undefined\<close>; \<open>split\<close> always returns a first
  field. The timestamp is an exact integer here and a double in the program: the two
  agree as long as the number of milliseconds stays below \<open>2^53\<close>, which holds for
  every time that git prints.
\<close>

definition delimiter :: jsstring where
  "delimiter = js '':;:''"

definition log_query :: "jsstring \<Rightarrow> jsstring \<Rightarrow> jsstring" where
  "log_query fromBranch toBranch =
     js ''git --no-pager log --pretty=format:'' @ [double_quote]
       @ js ''%at'' @ delimiter @ js ''%h'' @ delimiter @ js ''%H'' @ delimiter
       @ js ''%an'' @ delimiter @ js ''%s'' @ [double_quote]
       @ js '' origin/'' @ fromBranch @ js '' --not origin/'' @ toBranch"

definition field :: "jsstring list \<Rightarrow> nat \<Rightarrow> jsstring option" where
  "field parts i = (if i < length parts then Some (parts ! i) else None)"

definition parse_commit :: "platform \<Rightarrow> jsstring \<Rightarrow> jsstring \<Rightarrow> commit" where
  "parse_commit p fromBranch line =
     (let parts = split line delimiter in
      \<lparr> branch = fromBranch,
        timestamp = toNumber p (case parts of [] \<Rightarrow> [] | t # rest \<Rightarrow> t) * 1000,
        hash = field parts 1,
        fullHash = field parts 2,
        author = field parts 3,
        message = join delimiter (drop 4 parts) \<rparr>)"

definition getLatestCommits ::
  "platform \<Rightarrow> world \<Rightarrow> jsstring \<Rightarrow> jsstring \<Rightarrow> event list \<times> (error + commit list)" where
  "getLatestCommits p w fromBranch toBranch =
     (case executeShellCommand w (log_query fromBranch toBranch) of
        (evs, Inl e) \<Rightarrow> (evs, Inl e)
      | (evs, Inr result) \<Rightarrow>
          (evs, Inr (map (parse_commit p fromBranch) (split result [newline]))))"

section \<open>The program\<close>

text \<open>
  \<^verbatim>\<open>
  const fromBranchCherryPickableCommits = fromBranchCherryPickableFullHashes
    .map(fullHash => {
      const commit = fromBranchCommits.find(c => c.fullHash === fullHash)
      if (!commit) throw new Error(`Missing commit: ${fullHash}`)
      return commit
    })
    .reverse()
  \<close>
\<close>

definition fromBranchCherryPickableCommits ::
  "jsstring list \<Rightarrow> commit list \<Rightarrow> error + commit list" where
  "fromBranchCherryPickableCommits fullHashes fromBranchCommits =
     (case sequence (map (\<lambda>h. case find_commit fromBranchCommits h of
                                  None \<Rightarrow> Inl (Missing_commit h)
                                | Some commit \<Rightarrow> Inr commit) fullHashes) of
        Inl e \<Rightarrow> Inl e
      | Inr commits \<Rightarrow> Inr (rev commits))"

definition DEFAULT_FROM_BRANCH :: "environment \<Rightarrow> jsstring" where
  "DEFAULT_FROM_BRANCH env = str_of (or_else (env_from env) (Some (js ''dev'')))"

definition DEFAULT_INCLUDE_BRANCH :: "environment \<Rightarrow> jsstring option" where
  "DEFAULT_INCLUDE_BRANCH env = env_include env"

definition DEFAULT_TO_BRANCH :: "environment \<Rightarrow> jsstring" where
  "DEFAULT_TO_BRANCH env = str_of (or_else (env_to env) (Some (js ''master'')))"

definition apostrophe :: code_unit where
  "apostrophe = 39"

text \<open>The text printed for \<open>--help\<close>, its lines joined by a newline.\<close>

definition help_text :: "environment \<Rightarrow> jsstring" where
  "help_text env = join [newline]
     [[],
      js ''Quickly select commits to cherry-pick.'',
      js ''Search commits by typing part of message or author'' @ [apostrophe] @ js ''s name.'',
      [],
      js ''This command automatically prepends each branch with '' @ [apostrophe]
        @ js ''origin/'' @ [apostrophe] @ js '' prefix.'',
      js ''This command does not perform any modification actions.'',
      [],
      js ''Arguments:'',
      js ''  --from, -f: branch to pick commits from (default: '' @ DEFAULT_FROM_BRANCH env
        @ js '')'',
      js ''  --to, -t: name of the target branch (default: '' @ DEFAULT_TO_BRANCH env @ js '')'',
      js ''  --include, -i: mark commits that are already merged to this branch (''
        @ (if truthy (DEFAULT_INCLUDE_BRANCH env)
           then js ''default: '' @ str_of (DEFAULT_INCLUDE_BRANCH env) else js ''optional'')
        @ js '')'',
      js ''  --branch, -b: name of a cherry-pick branch (optional)'',
      [],
      js ''Usage:'',
      js ''  Pick commits from '' @ [apostrophe] @ DEFAULT_FROM_BRANCH env @ [apostrophe]
        @ js '' branch that are not in the '' @ [apostrophe] @ DEFAULT_TO_BRANCH env
        @ [apostrophe] @ js '' branch:'' @ [apostrophe],
      js ''  $ cherry-quick'',
      [],
      js ''  Specify '' @ [apostrophe] @ js ''from'' @ [apostrophe] @ js '' and ''
        @ [apostrophe] @ js ''to'' @ [apostrophe] @ js '' branches:'',
      js ''  $ cherry-quick --from release-dev'',
      js ''  $ cherry-quick --to release-dev'',
      [],
      js ''  Mark commits that were already merged into '' @ [apostrophe] @ js ''release-dev''
        @ [apostrophe] @ js '':'',
      js ''  $ cherry-quick --include release-dev'',
      [],
      js ''  Generate commands for creating a new branch and PR on GitHub:'',
      js ''  $ cherry-quick --branch HRIS-123-CP-PROD'',
      []]"

text \<open>\<open>emit evs r\<close>: the run \<open>r\<close> after the events \<open>evs\<close> have happened.\<close>

definition emit :: "event list \<Rightarrow> event list \<times> outcome \<Rightarrow> event list \<times> outcome" where
  "emit evs r = (evs @ fst r, snd r)"

text \<open>
  The end of the program, from the printing of the command:
  \<^verbatim>\<open>
  console.log('')
  console.log(command)
  console.log('')
  const shouldCopyToClipboard = await new Enquirer.Confirm({...}).run()
  if (shouldCopyToClipboard) {
    clipboardy.writeSync(command)
    console.log('Copied to clipboard!')
  }
  \<close>
\<close>

definition print_and_copy :: "world \<Rightarrow> jsstring \<Rightarrow> event list \<times> outcome" where
  "print_and_copy w cmd =
     emit [Log [], Log cmd, Log [], Ask_copy]
       (case confirm_copy w of
          None \<Rightarrow> ([], Thrown Prompt_cancelled)
        | Some False \<Rightarrow> ([], Finished)
        | Some True \<Rightarrow>
            if clipboard_ok w
            then ([Clipboard cmd, Log (js ''Copied to clipboard!'')], Finished)
            else ([Clipboard cmd], Thrown Clipboard_failed))"

text \<open>
  From the result of the prompt to the command:
  \<^verbatim>\<open>
  const cherryPickCommits = ...
  if (cherryPickCommits.length === 0) {
    console.log('No commits were picked')
    process.exit(0)
  }
  const command = ...
  \<close>
\<close>

definition build_command ::
  "world \<Rightarrow> jsstring option \<Rightarrow> jsstring \<Rightarrow> commit list \<Rightarrow> jsstring list
     \<Rightarrow> event list \<times> outcome" where
  "build_command w cherryPickBranch toBranch candidates picked =
     (let commits = cherryPickCommits candidates picked in
      if length commits = 0 then ([Log (js ''No commits were picked'')], Exited 0)
      else (case command cherryPickBranch toBranch commits of
              Inl e \<Rightarrow> ([], Thrown e)
            | Inr cmd \<Rightarrow> print_and_copy w cmd))"

text \<open>
  From the two fetched lists to the prompt:
  \<^verbatim>\<open>
  const fromBranchCherryPickableCommits = ...
  if (fromBranchCherryPickableCommits.length === 0) {
    console.log('No commits to pick from')
    process.exit(0)
  }
  const cherryPickCommitsFullHashes = await new Enquirer.AutoComplete({
    ..., choices: [...]
  }).run().catch(() => {
    console.log('Operation aborted by user')
    process.exit(0)
  })
  \<close>
  The \<open>choices\<close> are built before the prompt exists, so an exception there is not
  caught by \<open>catch\<close>.
\<close>

definition select_commits ::
  "platform \<Rightarrow> world \<Rightarrow> jsstring option \<Rightarrow> jsstring option \<Rightarrow> jsstring
     \<Rightarrow> jsstring list \<Rightarrow> jsstring list \<Rightarrow> commit list \<Rightarrow> event list \<times> outcome" where
  "select_commits p w includeBranch cherryPickBranch toBranch includeHashes fullHashes
     fromBranchCommits =
     (case fromBranchCherryPickableCommits fullHashes fromBranchCommits of
        Inl e \<Rightarrow> ([], Thrown e)
      | Inr candidates \<Rightarrow>
          if length candidates = 0 then ([Log (js ''No commits to pick from'')], Exited 0)
          else (case choices p includeBranch includeHashes candidates of
                  Inl e \<Rightarrow> ([], Thrown e)
                | Inr cs \<Rightarrow>
                    (case autocomplete w cs of
                       None \<Rightarrow>
                         ([Ask_commits cs, Log (js ''Operation aborted by user'')], Exited 0)
                     | Some picked \<Rightarrow>
                         emit [Ask_commits cs]
                           (build_command w cherryPickBranch toBranch candidates picked))))"

text \<open>
  The module from its first statement: the help, the branch names, the queries, in
  the source's order.
  \<^verbatim>\<open>
  if (values.help) { console.log([...].join('\n')); process.exit(0) }
  const fromBranch = values.from || DEFAULT_FROM_BRANCH
  const toBranch = values.to || DEFAULT_TO_BRANCH
  const includeBranch = values.include || DEFAULT_INCLUDE_BRANCH
  const cherryPickBranch = values.branch || undefined
  const fromBranchCherryPickableFullHashes = getCherryPickableFullHashes(fromBranch, toBranch)
  const includeBranchCherryPickableFullHashes =
    includeBranch ? getCherryPickableFullHashes(fromBranch, includeBranch) : []
  const fromBranchCommits = getLatestCommits(fromBranch, toBranch)
  \<close>
\<close>

definition fromBranch :: "environment \<Rightarrow> arguments \<Rightarrow> jsstring" where
  "fromBranch env args = str_of (or_else (arg_from args) (Some (DEFAULT_FROM_BRANCH env)))"

definition toBranch :: "environment \<Rightarrow> arguments \<Rightarrow> jsstring" where
  "toBranch env args = str_of (or_else (arg_to args) (Some (DEFAULT_TO_BRANCH env)))"

definition includeBranch :: "environment \<Rightarrow> arguments \<Rightarrow> jsstring option" where
  "includeBranch env args = or_else (arg_include args) (DEFAULT_INCLUDE_BRANCH env)"

definition cherryPickBranch :: "arguments \<Rightarrow> jsstring option" where
  "cherryPickBranch args = or_else (arg_branch args) None"

definition main :: "platform \<Rightarrow> environment \<Rightarrow> arguments \<Rightarrow> world \<Rightarrow> event list \<times> outcome" where
  "main p env args w =
     (if arg_help args then ([Log (help_text env)], Exited 0)
      else
       (case getCherryPickableFullHashes w (fromBranch env args) (toBranch env args) of
          (evs1, Inl e) \<Rightarrow> (evs1, Thrown e)
        | (evs1, Inr fullHashes) \<Rightarrow>
            emit evs1
              (case (if truthy (includeBranch env args)
                     then getCherryPickableFullHashes w (fromBranch env args)
                            (str_of (includeBranch env args))
                     else ([], Inr [])) of
                 (evs2, Inl e) \<Rightarrow> (evs2, Thrown e)
               | (evs2, Inr includeHashes) \<Rightarrow>
                   emit evs2
                     (case getLatestCommits p w (fromBranch env args) (toBranch env args) of
                        (evs3, Inl e) \<Rightarrow> (evs3, Thrown e)
                      | (evs3, Inr fromBranchCommits) \<Rightarrow>
                          emit evs3
                            (select_commits p w (includeBranch env args)
                               (cherryPickBranch args) (toBranch env args)
                               includeHashes fullHashes fromBranchCommits)))))"


section \<open>Notions the properties are stated with\<close>

text \<open>
  The second \<open>filter\<close> of \<open>suggest\<close>, as a recursion over the list it runs on: an entry
  that is not a separator stays, a separator stays when an entry follows it that is
  not a separator.
\<close>

fun second_pass :: "choice list \<Rightarrow> choice list" where
  "second_pass [] = []"
| "second_pass (c # cs) =
     (if \<not> is_separator c \<or> (cs \<noteq> [] \<and> \<not> is_separator (hd cs))
      then c # second_pass cs else second_pass cs)"

text \<open>The commands a run passed to \<open>execSync\<close>, in order.\<close>

fun executed :: "event list \<Rightarrow> jsstring list" where
  "executed [] = []"
| "executed (Exec cmd # evs) = cmd # executed evs"
| "executed (ev # evs) = executed evs"

text \<open>
  The read-only queries of a run, in the order of the source: the cherry comparison
  with the target branch, the cherry comparison with the include branch when there is
  one, and the commit log.
\<close>

definition queries :: "environment \<Rightarrow> arguments \<Rightarrow> jsstring list" where
  "queries env args =
     [cherry_query (fromBranch env args) (toBranch env args)]
     @ (if truthy (includeBranch env args)
        then [cherry_query (fromBranch env args) (str_of (includeBranch env args))] else [])
     @ [log_query (fromBranch env args) (toBranch env args)]"

text \<open>
  The events of a query: the call of \<open>execSync\<close> and the two progress lines around it,
  \<open>> command\<close> and the number of lines returned. Every other event is a prompt, a
  write to the clipboard, or other printed text.
\<close>

fun is_query_event :: "event \<Rightarrow> bool" where
  "is_query_event (Exec cmd) = True"
| "is_query_event (Log_returned n) = True"
| "is_query_event (Log text) = prefix (js ''> '') text"
| "is_query_event ev = False"

text \<open>
  The three lists of a run whose queries all succeed: the cherry-pickable full hashes,
  those of the include branch, and the commits of the log.
\<close>

definition fetched ::
  "platform \<Rightarrow> environment \<Rightarrow> arguments \<Rightarrow> world
     \<Rightarrow> (jsstring list \<times> jsstring list \<times> commit list) option" where
  "fetched p env args w =
     (case snd (getCherryPickableFullHashes w (fromBranch env args) (toBranch env args)) of
        Inl e \<Rightarrow> None
      | Inr fullHashes \<Rightarrow>
          (case snd (if truthy (includeBranch env args)
                     then getCherryPickableFullHashes w (fromBranch env args)
                            (str_of (includeBranch env args))
                     else ([], Inr [])) of
             Inl e \<Rightarrow> None
           | Inr includeHashes \<Rightarrow>
               (case snd (getLatestCommits p w (fromBranch env args) (toBranch env args)) of
                  Inl e \<Rightarrow> None
                | Inr fromBranchCommits \<Rightarrow>
                    Some (fullHashes, includeHashes, fromBranchCommits))))"

text \<open>
  The first cherry-pickable full hash, in the order of \<open>git cherry\<close>, that no commit of
  the log carries.
\<close>

definition first_missing :: "jsstring list \<Rightarrow> commit list \<Rightarrow> jsstring option" where
  "first_missing fullHashes commits =
     List.find (\<lambda>h. find_commit commits h = None) fullHashes"

text \<open>The prompt for the commits, and the four messages of the early exits.\<close>

fun is_prompt_event :: "event \<Rightarrow> bool" where
  "is_prompt_event (Ask_commits cs) = True"
| "is_prompt_event ev = False"

definition exit_messages :: "environment \<Rightarrow> jsstring list" where
  "exit_messages env =
     [help_text env, js ''No commits to pick from'', js ''Operation aborted by user'',
      js ''No commits were picked'']"

text \<open>The commits that the chosen names stand for, in the order they were chosen.\<close>

definition chosen :: "commit list \<Rightarrow> jsstring list \<Rightarrow> commit list" where
  "chosen candidates picked = List.map_filter (find_commit candidates) picked"

section \<open>A platform and a repository to run the program on\<close>

text \<open>
  The calendar date (year, month, day) of a day counted from 1970-01-01, in the
  proleptic Gregorian calendar, and with it a platform whose local time zone is UTC:
  \<open>getDate\<close> is the day of the month, \<open>toDateString\<close> prints \<open>Mon Jan 15 2024\<close>. Its
  \<open>toNumber\<close> reads decimal digits, its colours are switched off (\<open>ansi-colors\<close> then
  returns its argument, and the empty string for \<open>undefined\<close>), and of the Unicode case
  tables it knows the one line that matters below: the lower case of U+212A KELVIN
  SIGN is U+006B, the letter k.
\<close>

definition civil_from_days :: "int \<Rightarrow> int \<times> int \<times> int" where
  "civil_from_days z0 =
     (let z = z0 + 719468;
          era = z div 146097;
          doe = z - era * 146097;
          yoe = (doe - doe div 1460 + doe div 36524 - doe div 146096) div 365;
          doy = doe - (365 * yoe + yoe div 4 - yoe div 100);
          mp = (5 * doy + 2) div 153;
          d = doy - (153 * mp + 2) div 5 + 1;
          m = (if mp < 10 then mp + 3 else mp - 9);
          y = yoe + era * 400 + (if m \<le> 2 then 1 else 0)
      in (y, m, d))"

definition utc_date :: "int \<Rightarrow> int \<times> int \<times> int" where
  "utc_date ms = civil_from_days (ms div 86400000)"

definition utc_getDate :: "int \<Rightarrow> int" where
  "utc_getDate ms = snd (snd (utc_date ms))"

fun digits :: "nat \<Rightarrow> nat \<Rightarrow> jsstring" where
  "digits 0 n = []"
| "digits (Suc k) n = digits k (n div 10) @ [48 + n mod 10]"

definition utc_toDateString :: "int \<Rightarrow> jsstring" where
  "utc_toDateString ms =
     (case utc_date ms of (y, m, d) \<Rightarrow>
        [js ''Thu'', js ''Fri'', js ''Sat'', js ''Sun'', js ''Mon'', js ''Tue'', js ''Wed'']
          ! nat ((ms div 86400000) mod 7)
        @ [space]
        @ [js ''Jan'', js ''Feb'', js ''Mar'', js ''Apr'', js ''May'', js ''Jun'',
           js ''Jul'', js ''Aug'', js ''Sep'', js ''Oct'', js ''Nov'', js ''Dec'']
          ! nat (m - 1)
        @ [space] @ digits 2 (nat d) @ [space] @ digits 4 (nat y))"

definition decimal :: "jsstring \<Rightarrow> int" where
  "decimal s = foldl (\<lambda>n c. 10 * n + (int c - 48)) 0 s"

definition utc_platform :: platform where
  "utc_platform =
     \<lparr> lowerNonAscii = (\<lambda>s i. if s ! i = 8490 then [107] else [s ! i]),
       toNumber = decimal,
       getDate = utc_getDate,
       toDateString = utc_toDateString,
       dim = (\<lambda>v. case v of None \<Rightarrow> [] | Some s \<Rightarrow> s),
       green = (\<lambda>s. s) \<rparr>"

text \<open>
  Three commits of a branch \<open>dev\<close>: one of 15 January 2024 and one of 15 February 2024,
  both at 12:00 UTC, and one of 16 February 2024 at 09:00 UTC.
\<close>

definition commit_jan15 :: commit where
  "commit_jan15 =
     \<lparr> branch = js ''dev'', timestamp = 1705320000000, hash = Some (js ''a1''),
       fullHash = Some (js ''a1a1''), author = Some (js ''Ann''),
       message = js ''Fix keyboard'' \<rparr>"

definition commit_feb15 :: commit where
  "commit_feb15 =
     \<lparr> branch = js ''dev'', timestamp = 1707998400000, hash = Some (js ''b2''),
       fullHash = Some (js ''b2b2''), author = Some (js ''Bob''),
       message = js ''Add tests'' \<rparr>"

definition commit_feb16 :: commit where
  "commit_feb16 =
     \<lparr> branch = js ''dev'', timestamp = 1708074000000, hash = Some (js ''c3''),
       fullHash = Some (js ''c3c3''), author = Some (js ''Cy''),
       message = js ''Bump'' \<rparr>"

text \<open>The entries of the prompt for these three commits, oldest first.\<close>

definition choice_jan15 :: choice where
  "choice_jan15 =
     Commit_choice (Some (js ''a1a1'')) (js ''a1 Fix keyboard Ann'') (js ''a1fixkeyboardbyann'')"

definition choice_feb15 :: choice where
  "choice_feb15 =
     Commit_choice (Some (js ''b2b2'')) (js ''b2 Add tests Bob'') (js ''b2addtestsbybob'')"

definition choice_feb16 :: choice where
  "choice_feb16 = Commit_choice (Some (js ''c3c3'')) (js ''c3 Bump Cy'') (js ''c3bumpbycy'')"

definition sample_choices :: "choice list" where
  "sample_choices =
     [Separator (Some (js ''Mon Jan 15 2024'')), choice_jan15, choice_feb15,
      Separator (Some (js ''Thu Feb 15 2024'')), choice_feb16, Separator None]"

text \<open>
  A run of the program: no environment variable is set, the command line is empty
  (\<open>with_branch\<close> adds \<open>--branch CP-1-x\<close>), \<open>git cherry\<close> marks the three commits as
  cherry-pickable, \<open>git log\<close> lists them, the user picks the newest and the oldest, in
  that order, and answers yes to the copy.
\<close>

definition sample_environment :: environment where
  "sample_environment = \<lparr> env_from = None, env_include = None, env_to = None \<rparr>"

definition sample_arguments :: arguments where
  "sample_arguments =
     \<lparr> arg_from = None, arg_to = None, arg_include = None, arg_branch = None,
       arg_help = False \<rparr>"

definition with_branch :: arguments where
  "with_branch = sample_arguments \<lparr> arg_branch := Some (js ''CP-1-x'') \<rparr>"

definition cherry_output :: jsstring where
  "cherry_output =
     js ''+ c3c3'' @ [newline] @ js ''+ b2b2'' @ [newline] @ js ''+ a1a1'' @ [newline]"

definition log_output :: jsstring where
  "log_output =
     js ''1708074000:;:c3:;:c3c3:;:Cy:;:Bump'' @ [newline]
     @ js ''1707998400:;:b2:;:b2b2:;:Bob:;:Add tests'' @ [newline]
     @ js ''1705320000:;:a1:;:a1a1:;:Ann:;:Fix keyboard''"

definition sample_world :: world where
  "sample_world =
     \<lparr> shell = (\<lambda>cmd. if cmd = cherry_query (js ''dev'') (js ''master'')
                         then Some cherry_output
                         else if cmd = log_query (js ''dev'') (js ''master'')
                         then Some log_output else None),
       autocomplete = (\<lambda>cs. Some [js ''c3c3'', js ''a1a1'']),
       confirm_copy = Some True,
       clipboard_ok = True \<rparr>"

text \<open>The command of the run with \<open>--branch CP-1-x\<close>.\<close>

definition sample_command :: jsstring where
  "sample_command =
     js ''git switch -c CP-1-x origin/master && '' @ [backslash, newline]
     @ js ''git cherry-pick a1a1 && '' @ [backslash, newline]
     @ js ''git cherry-pick c3c3 && '' @ [backslash, newline]
     @ js ''git push -u origin CP-1-x && '' @ [backslash, newline]
     @ js ''gh pr create -a @me -t '' @ [double_quote] @ js ''CP-1 x'' @ [double_quote]
     @ js '' -B master -H CP-1-x -w''"

text \<open>The same repository when the user picks nothing, and when \<open>git log\<close> lacks a commit.\<close>

definition nothing_picked :: world where
  "nothing_picked = sample_world \<lparr> autocomplete := (\<lambda>cs. Some []) \<rparr>"

definition short_log :: world where
  "short_log =
     sample_world \<lparr> shell := (\<lambda>cmd. if cmd = cherry_query (js ''dev'') (js ''master'')
                                    then Some cherry_output
                                    else Some (js ''1708074000:;:c3:;:c3c3:;:Cy:;:Bump'')) \<rparr>"

text \<open>
  The text that \<open>--help\<close> prints when no environment variable is set, line by line.
\<close>

definition sample_help :: jsstring where
  "sample_help =
     [newline]
     @ js ''Quickly select commits to cherry-pick.'' @ [newline]
     @ js ''Search commits by typing part of message or author'' @ [apostrophe]
     @ js ''s name.'' @ [newline]
     @ [newline]
     @ js ''This command automatically prepends each branch with '' @ [apostrophe]
     @ js ''origin/'' @ [apostrophe] @ js '' prefix.'' @ [newline]
     @ js ''This command does not perform any modification actions.'' @ [newline]
     @ [newline]
     @ js ''Arguments:'' @ [newline]
     @ js ''  --from, -f: branch to pick commits from (default: dev)'' @ [newline]
     @ js ''  --to, -t: name of the target branch (default: master)'' @ [newline]
     @ js ''  --include, -i: mark commits that are already merged to this branch (optional)''
     @ [newline]
     @ js ''  --branch, -b: name of a cherry-pick branch (optional)'' @ [newline]
     @ [newline]
     @ js ''Usage:'' @ [newline]
     @ js ''  Pick commits from '' @ [apostrophe] @ js ''dev'' @ [apostrophe]
     @ js '' branch that are not in the '' @ [apostrophe] @ js ''master'' @ [apostrophe]
     @ js '' branch:'' @ [apostrophe] @ [newline]
     @ js ''  $ cherry-quick'' @ [newline]
     @ [newline]
     @ js ''  Specify '' @ [apostrophe] @ js ''from'' @ [apostrophe] @ js '' and ''
     @ [apostrophe] @ js ''to'' @ [apostrophe] @ js '' branches:'' @ [newline]
     @ js ''  $ cherry-quick --from release-dev'' @ [newline]
     @ js ''  $ cherry-quick --to release-dev'' @ [newline]
     @ [newline]
     @ js ''  Mark commits that were already merged into '' @ [apostrophe]
     @ js ''release-dev'' @ [apostrophe] @ js '':'' @ [newline]
     @ js ''  $ cherry-quick --include release-dev'' @ [newline]
     @ [newline]
     @ js ''  Generate commands for creating a new branch and PR on GitHub:'' @ [newline]
     @ js ''  $ cherry-quick --branch HRIS-123-CP-PROD'' @ [newline]"

text \<open>
  A run started with \<open>--from "dev; git cherry-pick a1a1"\<close>: the shell that \<open>execSync\<close>
  starts runs \<open>git cherry\<close> (or \<open>git log\<close>) and then what follows the semicolon; the
  queries print what they printed before, and the user picks the oldest commit.
\<close>

definition injected_arguments :: arguments where
  "injected_arguments =
     sample_arguments \<lparr> arg_from := Some (js ''dev; git cherry-pick a1a1'') \<rparr>"

definition injected_world :: world where
  "injected_world =
     \<lparr> shell = (\<lambda>cmd. if prefix (js ''git cherry '') cmd then Some cherry_output
                         else Some log_output),
       autocomplete = (\<lambda>cs. Some [js ''a1a1'']),
       confirm_copy = Some True,
       clipboard_ok = True \<rparr>"

section \<open>Properties\<close>

lemma js_Nil [simp]: "js [] = []"
  by (simp add: js_def)

text \<open>
  For evaluation: the test of \<open>is_whitespace\<close> with the small code units decided first.
\<close>

lemma is_whitespace_code [code]:
  "is_whitespace c =
     (if c < 161 then (9 \<le> c \<and> c \<le> 13) \<or> c = 32 \<or> c = 160
      else c = 5760 \<or> (8192 \<le> c \<and> c \<le> 8202)
        \<or> c = 8232 \<or> c = 8233 \<or> c = 8239 \<or> c = 8287 \<or> c = 12288 \<or> c = 65279)"
  by (auto simp: is_whitespace_def)

subsection \<open>truncate\<close>

lemma trim_id:
  assumes "s \<noteq> []" "\<not> is_whitespace (hd s)" "\<not> is_whitespace (last s)"
  shows "trim s = s"
proof -
  have a: "dropWhile is_whitespace s = s" using assms by (cases s) auto
  have "hd (rev s) = last s" using assms by (simp add: hd_rev)
  moreover have "rev s \<noteq> []" using assms by simp
  ultimately have b: "dropWhile is_whitespace (rev s) = rev s" using assms(3)
    by (cases "rev s") (simp_all del: rev_is_Nil_conv rev_eq_Cons_iff)
  show ?thesis by (simp add: trim_def a b)
qed

text \<open>
  C5, as the claim states it, fails: \<open>truncate\<close> trims the 79-character slice before
  it appends the ellipsis, so a subject of length 81 whose 79th character is a space
  ("aaa...a bc", 78 times \<open>a\<close>) comes out as 78 characters and the ellipsis.
\<close>

theorem truncate_81_counterexample:
  "length (replicate 78 97 @ [32, 98, 99 :: code_unit]) = 81 \<and>
   truncate (replicate 78 97 @ [32, 98, 99]) 80
     \<noteq> take 79 (replicate 78 97 @ [32, 98, 99]) @ [ellipsis] \<and>
   truncate (replicate 78 97 @ [32, 98, 99]) 80 = replicate 78 97 @ [ellipsis]"
  by (simp add: truncate_def slice0_def trim_def is_whitespace_def dropWhile_replicate
      ellipsis_def)

text \<open>
  C5, amended: truncation to 80 leaves a subject of length at most 80 unchanged; a
  longer subject (so one of length 81) becomes its first 79 characters with leading and
  trailing whitespace trimmed, followed by the ellipsis; when neither the first nor the
  79th character is whitespace nothing is trimmed and the result is exactly the first 79
  characters followed by the ellipsis.
\<close>

theorem truncate_80:
  "(length s \<le> 80 \<longrightarrow> truncate s 80 = s) \<and>
   (80 < length s \<longrightarrow> truncate s 80 = trim (take 79 s) @ [ellipsis]) \<and>
   (80 < length s \<and> \<not> is_whitespace (s ! 0) \<and> \<not> is_whitespace (s ! 78)
      \<longrightarrow> truncate s 80 = take 79 s @ [ellipsis])"
proof -
  have a: "truncate s 80 = s" if "length s \<le> 80"
    using that by (simp add: truncate_def)
  have b: "truncate s 80 = trim (take 79 s) @ [ellipsis]" if "80 < length s"
    using that by (simp add: truncate_def slice0_def)
  have c: "trim (take 79 s) = take 79 s"
    if "80 < length s" "\<not> is_whitespace (s ! 0)" "\<not> is_whitespace (s ! 78)"
  proof (rule trim_id)
    show "take 79 s \<noteq> []" using that(1) by auto
    show "\<not> is_whitespace (hd (take 79 s))"
      using that(1,2) by (cases s) auto
    have "s \<noteq> []"
      using that(1) by auto
    then have "last (take 79 s) = take 79 s ! 78"
      using that(1) last_conv_nth [of "take 79 s"] by auto
    then show "\<not> is_whitespace (last (take 79 s))"
      using that(3) by simp
  qed
  show ?thesis using a b c by simp
qed

theorem truncate_80_witness:
  "truncate (js ''short subject'') 80 = js ''short subject'' \<and>
   truncate (replicate 81 97) 80 = replicate 79 97 @ [ellipsis]"
proof -
  have "length (js ''short subject'') \<le> 80"
    by (simp add: js_def)
  moreover have "80 < length (replicate 81 (97 :: code_unit)) \<and>
      \<not> is_whitespace (replicate 81 97 ! 0) \<and> \<not> is_whitespace (replicate 81 97 ! 78)"
    by (simp add: is_whitespace_def)
  ultimately show ?thesis
    using truncate_80 [of "js ''short subject''", THEN conjunct1]
      truncate_80 [of "replicate 81 97", THEN conjunct2, THEN conjunct2]
    by simp
qed

subsection \<open>generatePullRequestTitleFromBranch\<close>

lemma replace_spaces:
  "(\<And>i. n \<le> i \<Longrightarrow> fn i = [space]) \<Longrightarrow>
   concat (map (\<lambda>(index, c). if c = hyphen then fn index else [c]) (enumerate n s))
     = spaces_for_hyphens s"
  by (induction s arbitrary: n) auto

lemma keep_first_no_hyphen: "hyphen \<notin> set b \<Longrightarrow> keep_first_hyphen b = b"
  by (induction b) auto

lemma replace_keep_first:
  "k = n + length (takeWhile (\<lambda>x. x \<noteq> hyphen) s) \<Longrightarrow> fn k = [hyphen] \<Longrightarrow>
   (\<And>i. i \<noteq> k \<Longrightarrow> fn i = [space]) \<Longrightarrow>
   concat (map (\<lambda>(index, c). if c = hyphen then fn index else [c]) (enumerate n s))
     = keep_first_hyphen s"
proof (induction s arbitrary: n)
  case Nil
  then show ?case by simp
next
  case (Cons c cs)
  define F where "F = (\<lambda>(index, c). if c = hyphen then fn index else [c])"
  have step: "concat (map F (enumerate n (c # cs))) = F (n, c) @ concat (map F (enumerate (Suc n) cs))"
    by simp
  show ?case
  proof (cases "c = hyphen")
    case True
    then have k: "k = n" using Cons.prems(1) by simp
    have sp: "\<And>i. Suc n \<le> i \<Longrightarrow> fn i = [space]"
      using Cons.prems(3) k by auto
    have "concat (map F (enumerate (Suc n) cs)) = spaces_for_hyphens cs"
      unfolding F_def by (rule replace_spaces) (rule sp)
    moreover have "F (n, c) = [hyphen]" using True Cons.prems(2) k by (simp add: F_def)
    ultimately have "concat (map F (enumerate n (c # cs))) = hyphen # spaces_for_hyphens cs"
      unfolding step by simp
    moreover have "keep_first_hyphen (c # cs) = hyphen # spaces_for_hyphens cs"
      using True by simp
    ultimately show ?thesis unfolding F_def by simp
  next
    case False
    then have "k = Suc n + length (takeWhile (\<lambda>x. x \<noteq> hyphen) cs)"
      using Cons.prems(1) by simp
    from Cons.IH[OF this Cons.prems(2) Cons.prems(3)]
    have "concat (map F (enumerate (Suc n) cs)) = keep_first_hyphen cs"
      unfolding F_def .
    moreover have "F (n, c) = [c]" using False by (simp add: F_def)
    ultimately have "concat (map F (enumerate n (c # cs))) = c # keep_first_hyphen cs"
      unfolding step by simp
    moreover have "keep_first_hyphen (c # cs) = c # keep_first_hyphen cs"
      using False by simp
    ultimately show ?thesis unfolding F_def by simp
  qed
qed

lemma title_is_keep_first: "generatePullRequestTitleFromBranch b = keep_first_hyphen b"
proof (cases "hyphen \<in> set b")
  case True
  show ?thesis
    unfolding generatePullRequestTitleFromBranch_def Let_def replaceAll_char_def
    by (rule replace_keep_first[where k = "length (takeWhile (\<lambda>x. x \<noteq> hyphen) b)"])
       (use True in \<open>auto simp: indexOf_def\<close>)
next
  case False
  have "concat (map (\<lambda>(index, c). if c = hyphen then fn index else [c]) (enumerate n b)) = b" for fn n
    using False by (induction b arbitrary: n) auto
  with False show ?thesis
    by (simp add: generatePullRequestTitleFromBranch_def Let_def replaceAll_char_def keep_first_no_hyphen)
qed

text \<open>
  C6: the title keeps the first hyphen and turns every other hyphen into a space;
  \<open>HRIS-123-CP-PROD\<close> becomes \<open>HRIS-123 CP PROD\<close>, and a branch name without a hyphen
  is returned unchanged.
\<close>

theorem title_keeps_first_hyphen:
  "generatePullRequestTitleFromBranch b = keep_first_hyphen b \<and>
   generatePullRequestTitleFromBranch (js ''HRIS-123-CP-PROD'') = js ''HRIS-123 CP PROD'' \<and>
   (hyphen \<notin> set b \<longrightarrow> generatePullRequestTitleFromBranch b = b)"
proof -
  have "keep_first_hyphen (js ''HRIS-123-CP-PROD'') = js ''HRIS-123 CP PROD''"
    by (simp add: js_def hyphen_def space_def)
  then show ?thesis
    by (simp add: title_is_keep_first keep_first_no_hyphen)
qed

theorem title_keeps_first_hyphen_witness:
  "hyphen \<notin> set (js ''hotfix'') \<and>
   generatePullRequestTitleFromBranch (js ''hotfix'') = js ''hotfix'' \<and>
   generatePullRequestTitleFromBranch (js ''a-b-c'') = js ''a-b c''"
proof -
  have h: "hyphen \<notin> set (js ''hotfix'')"
    by (simp add: js_def hyphen_def)
  have k: "keep_first_hyphen (js ''a-b-c'') = js ''a-b c''"
    by (simp add: js_def hyphen_def space_def)
  show ?thesis
    using h k title_keeps_first_hyphen [of "js ''hotfix''", THEN conjunct2, THEN conjunct2]
      title_keeps_first_hyphen [of "js ''a-b-c''", THEN conjunct1]
    by simp
qed

subsection \<open>The sample repository\<close>

lemma choices_sample:
  "choices utc_platform None [] [commit_jan15, commit_feb15, commit_feb16] = Inr sample_choices"
  by code_simp

subsection \<open>suggest\<close>

lemma second_pass_enumerate:
  "map snd (filter (keeps (pre @ xs)) (enumerate (length pre) xs)) = second_pass xs"
proof (induction xs arbitrary: pre)
  case Nil
  show ?case by simp
next
  case (Cons x xs)
  have rest: "map snd (filter (keeps (pre @ x # xs)) (enumerate (Suc (length pre)) xs))
      = second_pass xs"
    using Cons.IH [of "pre @ [x]"] by simp
  have nxt: "(pre @ x # xs) ! (length pre + 1) = hd xs" if "xs \<noteq> []"
    using that by (cases xs) (simp_all add: nth_append)
  have head: "keeps (pre @ x # xs) (length pre, x)
      \<longleftrightarrow> \<not> is_separator x \<or> (xs \<noteq> [] \<and> \<not> is_separator (hd xs))"
  proof (cases "xs = []")
    case True
    then show ?thesis by (simp add: keeps_def)
  next
    case False
    with nxt show ?thesis by (simp add: keeps_def)
  qed
  show ?case
    using rest head by simp
qed

lemma suggest_second_pass: "suggest p typed cs = second_pass (filter (matches p typed) cs)"
  using second_pass_enumerate [of "[]" "filter (matches p typed) cs"]
  by (simp add: suggest_def Let_def)

lemma matches_separator [simp]: "is_separator c \<Longrightarrow> matches p typed c"
  by (cases c) (simp_all add: matches_def)

lemma matches_commit [simp]:
  "matches p typed (Commit_choice n m q) = includes_str q (toLowerCase p typed)"
  by (simp add: matches_def)

lemma first_match:
  "(filter (matches p typed) cs \<noteq> [] \<and> \<not> is_separator (hd (filter (matches p typed) cs)))
   \<longleftrightarrow> (\<exists>c \<in> set (takeWhile (\<lambda>c. \<not> is_separator c) cs). matches p typed c)"
proof (induction cs)
  case Nil
  show ?case by simp
next
  case (Cons c cs)
  show ?case
  proof (cases "is_separator c")
    case True
    then show ?thesis by simp
  next
    case False
    with Cons show ?thesis by (cases "matches p typed c") auto
  qed
qed

lemma second_pass_spec:
  "second_pass (filter (matches p typed) cs) = suggest_spec p typed cs"
proof (induction cs)
  case Nil
  show ?case by simp
next
  case (Cons c cs)
  show ?case
  proof (cases c)
    case (Separator m)
    with Cons first_match [of p typed cs] show ?thesis by simp
  next
    case (Commit_choice n m q)
    with Cons show ?thesis by simp
  qed
qed

lemma tidy_Cons: "\<not> is_separator x \<Longrightarrow> tidy r \<Longrightarrow> tidy (x # r)"
  by (cases r) simp_all

lemma tidy_second_pass: "tidy (second_pass xs)"
proof (induction xs)
  case Nil
  show ?case by simp
next
  case (Cons x xs)
  show ?case
  proof (cases "is_separator x")
    case False
    with Cons show ?thesis by (simp add: tidy_Cons)
  next
    case True
    show ?thesis
    proof (cases xs)
      case Nil
      with True show ?thesis by simp
    next
      case (Cons d ds)
      with True Cons.IH show ?thesis by (cases "is_separator d") simp_all
    qed
  qed
qed

lemma entries_second_pass:
  "filter (\<lambda>c. \<not> is_separator c) (second_pass xs) = filter (\<lambda>c. \<not> is_separator c) xs"
  by (induction xs) auto

lemma second_pass_separators: "\<forall>c \<in> set xs. is_separator c \<Longrightarrow> second_pass xs = []"
  by (induction xs) (auto simp: neq_Nil_conv)

text \<open>
  C9: the filtered list is the one the specification describes (a commit entry is kept
  when its search key contains the lowercased query, a separator when a kept commit
  entry follows it before the next separator); its commit entries are exactly the
  matching commit entries of the full list, in order; and it has no two separators
  side by side and no separator at its end.
\<close>

theorem suggest_correct:
  "suggest p typed cs = suggest_spec p typed cs \<and>
   filter (\<lambda>c. \<not> is_separator c) (suggest p typed cs)
     = filter (\<lambda>c. \<not> is_separator c \<and> matches p typed c) cs \<and>
   tidy (suggest p typed cs)"
  by (simp add: suggest_second_pass second_pass_spec [symmetric] tidy_second_pass
      entries_second_pass conj_commute)


theorem suggest_correct_witness:
  "suggest_spec utc_platform (js ''bob'') sample_choices
     = [Separator (Some (js ''Mon Jan 15 2024'')), choice_feb15] \<and>
   filter (\<lambda>c. \<not> is_separator c \<and> matches utc_platform (js ''bob'') c) sample_choices
     = [choice_feb15] \<and>
   tidy [Separator (Some (js ''Mon Jan 15 2024'')), choice_feb15]"
proof -
  have run: "suggest utc_platform (js ''bob'') sample_choices
      = [Separator (Some (js ''Mon Jan 15 2024'')), choice_feb15]"
    by code_simp
  note sc = suggest_correct [of utc_platform "js ''bob''" sample_choices]
  have a: "suggest_spec utc_platform (js ''bob'') sample_choices
      = [Separator (Some (js ''Mon Jan 15 2024'')), choice_feb15]"
    using sc [THEN conjunct1] run by simp
  have "filter (\<lambda>c. \<not> is_separator c \<and> matches utc_platform (js ''bob'') c) sample_choices
      = filter (\<lambda>c. \<not> is_separator c)
          [Separator (Some (js ''Mon Jan 15 2024'')), choice_feb15]"
    using sc [THEN conjunct2, THEN conjunct1] run by simp
  then have b: "filter (\<lambda>c. \<not> is_separator c \<and> matches utc_platform (js ''bob'') c)
      sample_choices = [choice_feb15]"
    by (simp add: choice_feb15_def)
  have c: "tidy [Separator (Some (js ''Mon Jan 15 2024'')), choice_feb15]"
    using sc [THEN conjunct2, THEN conjunct2] run by simp
  show ?thesis
    using a b c by simp
qed

subsection \<open>Queries with a character outside \<open>\w\<close>\<close>

lemma lower_enumerate:
  "\<forall>c \<in> set s. c < 128 \<Longrightarrow>
   concat (map (\<lambda>(i, c). if c < 128 then [ascii_lower c] else f i) (enumerate n s))
     = map ascii_lower s"
  by (induction s arbitrary: n) auto

lemma toLowerCase_ascii: "\<forall>c \<in> set s. c < 128 \<Longrightarrow> toLowerCase p s = map ascii_lower s"
  unfolding toLowerCase_def by (rule lower_enumerate)

lemma word_char_ascii: "is_word_char c \<Longrightarrow> c < 128"
  by (auto simp: is_word_char_def)

lemma word_char_lower: "is_word_char c \<Longrightarrow> is_word_char (ascii_lower c)"
  by (auto simp: is_word_char_def ascii_lower_def)

lemma not_word_char_lower: "\<not> is_word_char c \<Longrightarrow> \<not> is_word_char (ascii_lower c)"
  by (auto simp: is_word_char_def ascii_lower_def)

lemma commit_query_word: "c \<in> set (commit_query p commit) \<Longrightarrow> is_word_char c"
proof -
  let ?s = "strip_non_word (str_of (hash commit) @ [space] @ message commit @ js '' by ''
     @ str_of (author commit))"
  have w: "\<forall>c \<in> set ?s. is_word_char c"
    by (auto simp: strip_non_word_def)
  then have "\<forall>c \<in> set ?s. c < 128"
    using word_char_ascii by blast
  then have "commit_query p commit = map ascii_lower ?s"
    unfolding commit_query_def by (rule toLowerCase_ascii)
  moreover assume "c \<in> set (commit_query p commit)"
  ultimately show ?thesis
    using w word_char_lower by auto
qed

lemma lower_member:
  assumes "c \<in> set s" "c < 128"
  shows "ascii_lower c \<in> set (concat (map (\<lambda>(i, c). if c < 128 then [ascii_lower c] else f i)
                                     (enumerate n s)))"
proof -
  from assms(1) obtain i where "i < length s" "s ! i = c"
    by (auto simp: in_set_conv_nth)
  then have "(n + i, c) \<in> set (enumerate n s)"
    by (auto simp: in_set_enumerate_eq)
  then have "set ((\<lambda>(i, c). if c < 128 then [ascii_lower c] else f i) (n + i, c))
      \<subseteq> set (concat (map (\<lambda>(i, c). if c < 128 then [ascii_lower c] else f i)
                             (enumerate n s)))"
    by (intro subsetI, simp only: set_concat set_map, blast)
  then show ?thesis
    using assms(2) by simp
qed

lemma toLowerCase_member:
  "c \<in> set s \<Longrightarrow> c < 128 \<Longrightarrow> ascii_lower c \<in> set (toLowerCase p s)"
  unfolding toLowerCase_def by (rule lower_member)

lemma includes_str_set: "includes_str q t \<Longrightarrow> set t \<subseteq> set q"
proof (induction q)
  case Nil
  then show ?case by simp
next
  case (Cons c cs)
  then show ?case using set_mono_prefix [of t "c # cs"] by auto
qed

lemma sequence_Inr: "sequence rs = Inr xs \<Longrightarrow> rs = map Inr xs"
proof (induction rs arbitrary: xs)
  case Nil
  then show ?case by simp
next
  case (Cons r rs)
  then show ?case by (cases r) (auto split: sum.splits)
qed

lemma commit_rows_query:
  "commit_rows p inc ih commits i = Inr row \<Longrightarrow> i < length commits \<Longrightarrow>
   Some (Commit_choice n m q) \<in> set row \<Longrightarrow> \<exists>commit \<in> set commits. q = commit_query p commit"
  by (auto simp: commit_rows_def Let_def split: sum.splits option.splits if_splits)

lemma choices_query:
  assumes "choices p inc ih commits = Inr cs" "Commit_choice n m q \<in> set cs"
  shows "\<exists>commit \<in> set commits. q = commit_query p commit"
proof -
  from assms(1) obtain rows where
    seq: "sequence (map (commit_rows p inc ih commits) [0 ..< length commits]) = Inr rows"
    and cs: "cs = List.map_filter id (concat rows @ [Some (Separator None)])"
    by (auto simp: choices_def split: sum.splits)
  from assms(2) cs have "Some (Commit_choice n m q) \<in> set (concat rows)"
    by (auto simp: map_filter_def)
  then obtain row where row: "row \<in> set rows" "Some (Commit_choice n m q) \<in> set row"
    by auto
  from sequence_Inr [OF seq]
  have "map (commit_rows p inc ih commits) [0 ..< length commits] = map Inr rows" .
  then have "Inr row \<in> set (map (commit_rows p inc ih commits) [0 ..< length commits])"
    using row(1) by simp
  then obtain i where "i < length commits" "commit_rows p inc ih commits i = Inr row"
    by auto
  with row(2) show ?thesis
    using commit_rows_query by blast
qed

lemma no_match:
  assumes "choices p inc ih commits = Inr cs"
    and "c \<in> set (toLowerCase p typed)" "\<not> is_word_char c"
    and "x \<in> set cs" "matches p typed x"
  shows "is_separator x"
proof (cases x)
  case (Separator m)
  then show ?thesis by simp
next
  case (Commit_choice n m q)
  with assms(1,4) obtain commit where "q = commit_query p commit"
    using choices_query by blast
  moreover from Commit_choice assms(5) have "set (toLowerCase p typed) \<subseteq> set q"
    using includes_str_set by simp
  ultimately have "is_word_char c"
    using assms(2) commit_query_word by blast
  with assms(3) show ?thesis by simp
qed

text \<open>
  C10, as the claim states it, fails: \<open>toLowerCase\<close> runs on the typed string before the
  substring test, and the lower case of U+212A KELVIN SIGN, which is not in \<open>\w\<close>, is the
  letter k. Typing that one character keeps the entry of the commit "Fix keyboard".
\<close>

theorem kelvin_sign_counterexample:
  "\<not> is_word_char 8490 \<and>
   toLowerCase utc_platform [8490] = js ''k'' \<and>
   choices utc_platform None [] [commit_jan15]
     = Inr [Separator (Some (js ''Mon Jan 15 2024'')), choice_jan15, Separator None] \<and>
   suggest utc_platform [8490]
       [Separator (Some (js ''Mon Jan 15 2024'')), choice_jan15, Separator None]
     = [Separator (Some (js ''Mon Jan 15 2024'')), choice_jan15]"
  by code_simp

text \<open>
  C10, amended: when the typed string contains an ASCII character outside \<open>\w\<close> (a
  space, punctuation), or more generally when its lowercased form contains a character
  outside \<open>\w\<close>, no commit entry of the prompt's list matches, and the filtered list is
  empty.
\<close>

theorem non_word_query_matches_nothing:
  assumes "choices p inc ih commits = Inr cs"
    and "(\<exists>c \<in> set typed. c < 128 \<and> \<not> is_word_char c)
         \<or> (\<exists>c \<in> set (toLowerCase p typed). \<not> is_word_char c)"
  shows "suggest p typed cs = []"
proof -
  from assms(2) obtain c where c: "c \<in> set (toLowerCase p typed)" "\<not> is_word_char c"
    using toLowerCase_member not_word_char_lower by blast
  have "\<forall>x \<in> set (filter (matches p typed) cs). is_separator x"
    using no_match [OF assms(1) c] by auto
  then show ?thesis
    by (simp add: suggest_second_pass second_pass_separators)
qed


theorem non_word_query_matches_nothing_witness:
  "suggest utc_platform (js ''fix keyboard'') sample_choices = [] \<and>
   suggest utc_platform (js ''fixkeyboard'') sample_choices
     = [Separator (Some (js ''Mon Jan 15 2024'')), choice_jan15]"
proof -
  have "\<exists>c \<in> set (js ''fix keyboard''). c < 128 \<and> \<not> is_word_char c"
    by code_simp
  then have "suggest utc_platform (js ''fix keyboard'') sample_choices = []"
    using non_word_query_matches_nothing [OF choices_sample, of "js ''fix keyboard''"]
    by blast
  moreover have "suggest utc_platform (js ''fixkeyboard'') sample_choices
      = [Separator (Some (js ''Mon Jan 15 2024'')), choice_jan15]"
    by code_simp
  ultimately show ?thesis by simp
qed

subsection \<open>The generated command\<close>

lemma find_commit_Some: "find_commit candidates h = Some c \<Longrightarrow> c \<in> set candidates \<and> fullHash c = Some h"
  by (auto simp: find_commit_def find_Some_iff)

lemma find_commit_None: "find_commit candidates h = None \<longleftrightarrow> (\<forall>c \<in> set candidates. fullHash c \<noteq> Some h)"
  by (auto simp: find_commit_def find_None_iff)

lemma chosen_Nil [simp]: "chosen candidates [] = []"
  by (simp add: chosen_def map_filter_simps)

lemma chosen_Cons:
  "chosen candidates (h # hs) =
     (case find_commit candidates h of None \<Rightarrow> chosen candidates hs
      | Some c \<Rightarrow> c # chosen candidates hs)"
  by (simp add: chosen_def map_filter_simps split: option.splits)

lemma found_all:
  "\<forall>h \<in> set picked. \<exists>c \<in> set candidates. fullHash c = Some h \<Longrightarrow>
   map (find_commit candidates) picked = map Some (chosen candidates picked) \<and>
   map fullHash (chosen candidates picked) = map Some picked"
proof (induction picked)
  case Nil
  show ?case by simp
next
  case (Cons h hs)
  then obtain c where c: "find_commit candidates h = Some c"
    using find_commit_None [of candidates h] by (cases "find_commit candidates h") auto
  with Cons find_commit_Some [OF c] show ?case
    by (simp add: chosen_Cons)
qed

lemma sort_by_timestamp_defined:
  "sort_by_timestamp (map Some cs) = map Some (sort_key timestamp cs)"
proof -
  have "List.map_filter id (map Some cs) = cs"
    by (induction cs) (simp_all add: map_filter_simps)
  moreover have "filter (\<lambda>x. x = None) (map Some cs) = []"
    by (induction cs) simp_all
  ultimately show ?thesis by (simp add: sort_by_timestamp_def)
qed

lemma cherry_pick_lines_defined:
  "cherry_pick_lines (map Some cs) = Inr (map cherry_pick_command cs)"
  by (induction cs) (simp_all add: cherry_pick_lines_def)

lemma command_lines_defined:
  "command_lines b t (map Some cs) =
     Inr ((if truthy b then [switch_command (str_of b) t] else [])
          @ map cherry_pick_command cs
          @ (if truthy b then [push_command (str_of b), pr_command (str_of b) t] else []))"
  by (simp add: command_lines_def cherry_pick_lines_defined)

lemma command_defined:
  "command b t (map Some cs) =
     Inr (trim (join chain
       ((if truthy b then [switch_command (str_of b) t] else [])
        @ map cherry_pick_command cs
        @ (if truthy b then [push_command (str_of b), pr_command (str_of b) t] else []))))"
  by (simp add: command_def command_lines_defined)

lemma cherry_pick_command_chosen:
  "map fullHash cs = map Some hs \<Longrightarrow>
   map cherry_pick_command cs = map (\<lambda>h. js ''git cherry-pick '' @ h) hs"
proof (induction cs arbitrary: hs)
  case Nil
  then show ?case by simp
next
  case (Cons c cs)
  then show ?case by (cases hs) (auto simp: cherry_pick_command_def str_of_def)
qed

lemma mset_chosen: "mset (chosen candidates picked)
   = image_mset (\<lambda>h. the (find_commit candidates h)) (filter_mset (\<lambda>h. find_commit candidates h \<noteq> None) (mset picked))"
  by (induction picked) (auto simp: chosen_Cons split: option.splits)

lemma timestamps_sorted: "map timestamp (sort_key timestamp cs) = sort (map timestamp cs)"
  by (rule properties_for_sort [symmetric]) simp_all

lemma order_irrelevant:
  assumes "mset picked' = mset picked"
  shows "map timestamp (sort_key timestamp (chosen candidates picked'))
     = map timestamp (sort_key timestamp (chosen candidates picked))"
proof -
  have "mset (chosen candidates picked') = mset (chosen candidates picked)"
    using assms by (simp add: mset_chosen)
  then have "mset (map timestamp (chosen candidates picked'))
      = mset (map timestamp (chosen candidates picked))"
    by simp
  then have "sort (map timestamp (chosen candidates picked'))
      = sort (map timestamp (chosen candidates picked))"
    by (intro properties_for_sort) simp_all
  then show ?thesis by (simp add: timestamps_sorted)
qed

lemma trim_two: "trim (join chain [js ''git cherry-pick a1a1'', js ''git cherry-pick c3c3''])
  = js ''git cherry-pick a1a1 && '' @ [backslash, newline] @ js ''git cherry-pick c3c3''"
  by (rule trans [OF trim_id]) (simp_all add: js_def chain_def is_whitespace_def)

text \<open>
  C1: when every chosen name is the full hash of a candidate (the prompt offers no other
  names), the generated command text is the trimmed join of its lines, and these have
  one line \<open>git cherry-pick <fullHash>\<close> for each chosen name, between the optional
  first line and the optional last two; the lines follow the commits sorted by
  timestamp, so their timestamps never decrease; and the sequence of timestamps is the
  same for every order in which the same names were chosen.
\<close>

theorem cherry_picks_in_timestamp_order:
  assumes "\<forall>h \<in> set picked. \<exists>c \<in> set candidates. fullHash c = Some h"
  shows "cherryPickCommits candidates picked
           = map Some (sort_key timestamp (chosen candidates picked)) \<and>
         command_lines b t (cherryPickCommits candidates picked)
           = Inr ((if truthy b then [switch_command (str_of b) t] else [])
                  @ map cherry_pick_command (sort_key timestamp (chosen candidates picked))
                  @ (if truthy b then [push_command (str_of b), pr_command (str_of b) t]
                     else [])) \<and>
         sorted (map timestamp (sort_key timestamp (chosen candidates picked))) \<and>
         mset (map cherry_pick_command (sort_key timestamp (chosen candidates picked)))
           = mset (map (\<lambda>h. js ''git cherry-pick '' @ h) picked) \<and>
         (\<forall>picked'. mset picked' = mset picked \<longrightarrow>
            map timestamp (sort_key timestamp (chosen candidates picked'))
              = map timestamp (sort_key timestamp (chosen candidates picked))) \<and>
         command b t (cherryPickCommits candidates picked)
           = Inr (trim (join chain
               ((if truthy b then [switch_command (str_of b) t] else [])
                @ map cherry_pick_command (sort_key timestamp (chosen candidates picked))
                @ (if truthy b then [push_command (str_of b), pr_command (str_of b) t]
                   else []))))"
proof -
  note f = found_all [OF assms]
  have a: "cherryPickCommits candidates picked
      = map Some (sort_key timestamp (chosen candidates picked))"
    using f by (simp add: cherryPickCommits_def sort_by_timestamp_defined)
  have "mset (map cherry_pick_command (sort_key timestamp (chosen candidates picked)))
      = mset (map cherry_pick_command (chosen candidates picked))"
    by simp
  also have "\<dots> = mset (map (\<lambda>h. js ''git cherry-pick '' @ h) picked)"
    using cherry_pick_command_chosen [OF f [THEN conjunct2]] by simp
  finally have m: "mset (map cherry_pick_command (sort_key timestamp (chosen candidates picked)))
      = mset (map (\<lambda>h. js ''git cherry-pick '' @ h) picked)" .
  have c: "command_lines b t (cherryPickCommits candidates picked)
      = Inr ((if truthy b then [switch_command (str_of b) t] else [])
             @ map cherry_pick_command (sort_key timestamp (chosen candidates picked))
             @ (if truthy b then [push_command (str_of b), pr_command (str_of b) t]
                else []))"
    unfolding a by (rule command_lines_defined)
  have s: "sorted (map timestamp (sort_key timestamp (chosen candidates picked)))"
    by simp
  have o: "\<forall>picked'. mset picked' = mset picked \<longrightarrow>
      map timestamp (sort_key timestamp (chosen candidates picked'))
        = map timestamp (sort_key timestamp (chosen candidates picked))"
    using order_irrelevant by blast
  have x: "command b t (cherryPickCommits candidates picked)
      = Inr (trim (join chain
          ((if truthy b then [switch_command (str_of b) t] else [])
           @ map cherry_pick_command (sort_key timestamp (chosen candidates picked))
           @ (if truthy b then [push_command (str_of b), pr_command (str_of b) t]
              else []))))"
    unfolding a by (rule command_defined)
  show ?thesis
    using a c s m o x by (intro conjI)
qed

theorem cherry_picks_in_timestamp_order_witness:
  "cherryPickCommits [commit_jan15, commit_feb15, commit_feb16] [js ''c3c3'', js ''a1a1'']
     = [Some commit_jan15, Some commit_feb16] \<and>
   command_lines None (js ''master'')
       (cherryPickCommits [commit_jan15, commit_feb15, commit_feb16] [js ''c3c3'', js ''a1a1''])
     = Inr [js ''git cherry-pick a1a1'', js ''git cherry-pick c3c3''] \<and>
   command None (js ''master'')
       (cherryPickCommits [commit_jan15, commit_feb15, commit_feb16] [js ''c3c3'', js ''a1a1''])
     = Inr (js ''git cherry-pick a1a1 && '' @ [backslash, newline]
            @ js ''git cherry-pick c3c3'')"
proof -
  have h: "\<forall>h \<in> set [js ''c3c3'', js ''a1a1''].
      \<exists>c \<in> set [commit_jan15, commit_feb15, commit_feb16]. fullHash c = Some h"
    by code_simp
  have s: "sort_key timestamp
      (chosen [commit_jan15, commit_feb15, commit_feb16] [js ''c3c3'', js ''a1a1''])
      = [commit_jan15, commit_feb16]"
    by code_simp
  have l: "map cherry_pick_command [commit_jan15, commit_feb16]
      = [js ''git cherry-pick a1a1'', js ''git cherry-pick c3c3'']"
    by code_simp
  note t = cherry_picks_in_timestamp_order [OF h, of None "js ''master''"]
  have 1: "cherryPickCommits [commit_jan15, commit_feb15, commit_feb16]
      [js ''c3c3'', js ''a1a1''] = [Some commit_jan15, Some commit_feb16]"
    using t [THEN conjunct1] s by simp
  have 2: "command_lines None (js ''master'')
       (cherryPickCommits [commit_jan15, commit_feb15, commit_feb16] [js ''c3c3'', js ''a1a1''])
     = Inr [js ''git cherry-pick a1a1'', js ''git cherry-pick c3c3'']"
    using t [THEN conjunct2, THEN conjunct1] s l by (simp add: truthy_def)
  have "command None (js ''master'')
       (cherryPickCommits [commit_jan15, commit_feb15, commit_feb16] [js ''c3c3'', js ''a1a1''])
     = Inr (trim (join chain [js ''git cherry-pick a1a1'', js ''git cherry-pick c3c3'']))"
    using t [THEN conjunct2, THEN conjunct2, THEN conjunct2, THEN conjunct2, THEN conjunct2]
      s l
    by (simp add: truthy_def)
  then have 3: "command None (js ''master'')
       (cherryPickCommits [commit_jan15, commit_feb15, commit_feb16] [js ''c3c3'', js ''a1a1''])
     = Inr (js ''git cherry-pick a1a1 && '' @ [backslash, newline]
            @ js ''git cherry-pick c3c3'')"
    using trim_two by simp
  show ?thesis
    using 1 2 3 by (intro conjI)
qed

text \<open>
  C8: the command is the trimmed join, with the separator \<open>&&\<close>, backslash, newline, of
  the lines: with a branch name the line that creates and switches to the branch, the
  cherry-picks, the push and the pull request; without one the cherry-picks alone. A
  branch name counts as supplied when \<open>--branch\<close> has a non-empty value.
\<close>

theorem command_is_one_chain:
  "command b t (map Some cs)
     = Inr (trim (join chain
         ((if truthy b then [switch_command (str_of b) t] else [])
          @ map cherry_pick_command cs
          @ (if truthy b then [push_command (str_of b), pr_command (str_of b) t] else [])))) \<and>
   (truthy b \<longrightarrow> command b t (map Some cs)
     = Inr (trim (join chain
         (switch_command (str_of b) t # map cherry_pick_command cs
          @ [push_command (str_of b), pr_command (str_of b) t])))) \<and>
   (\<not> truthy b \<longrightarrow> command b t (map Some cs)
     = Inr (trim (join chain (map cherry_pick_command cs)))) \<and>
   truthy (cherryPickBranch args) = truthy (arg_branch args) \<and>
   (truthy (arg_branch args) \<longrightarrow> cherryPickBranch args = arg_branch args)"
  by (simp add: command_defined cherryPickBranch_def or_else_def truthy_def)


lemma lines_with_branch:
  "[switch_command (js ''CP-1-x'') (js ''master''),
    cherry_pick_command commit_jan15, cherry_pick_command commit_feb16,
    push_command (js ''CP-1-x''), pr_command (js ''CP-1-x'') (js ''master'')]
   = [js ''git switch -c CP-1-x origin/master'',
      js ''git cherry-pick a1a1'', js ''git cherry-pick c3c3'',
      js ''git push -u origin CP-1-x'',
      js ''gh pr create -a @me -t '' @ [double_quote] @ js ''CP-1 x'' @ [double_quote]
        @ js '' -B master -H CP-1-x -w'']"
  by code_simp

theorem command_is_one_chain_witness:
  "command (Some (js ''CP-1-x'')) (js ''master'') [Some commit_jan15, Some commit_feb16]
     = Inr sample_command \<and>
   command None (js ''master'') [Some commit_jan15, Some commit_feb16]
     = Inr (js ''git cherry-pick a1a1 && '' @ [backslash, newline]
            @ js ''git cherry-pick c3c3'')"
proof -
  have y: "truthy (Some (js ''CP-1-x''))" and n: "\<not> truthy None"
    by (simp_all add: truthy_def js_def)
  have a: "trim (join chain
        (switch_command (str_of (Some (js ''CP-1-x''))) (js ''master'')
         # map cherry_pick_command [commit_jan15, commit_feb16]
         @ [push_command (str_of (Some (js ''CP-1-x''))),
            pr_command (str_of (Some (js ''CP-1-x''))) (js ''master'')]))
      = sample_command"
    unfolding str_of_def option.case list.map lines_with_branch append_Cons append_Nil
      sample_command_def
    by (rule trans [OF trim_id]) (simp_all add: js_def chain_def is_whitespace_def)
  have l: "map cherry_pick_command [commit_jan15, commit_feb16]
      = [js ''git cherry-pick a1a1'', js ''git cherry-pick c3c3'']"
    using lines_with_branch by simp
  have b: "trim (join chain (map cherry_pick_command [commit_jan15, commit_feb16]))
      = js ''git cherry-pick a1a1 && '' @ [backslash, newline] @ js ''git cherry-pick c3c3''"
    unfolding l by (rule trim_two)
  show ?thesis
    using command_is_one_chain [of "Some (js ''CP-1-x'')" "js ''master''"
          "[commit_jan15, commit_feb16]", THEN conjunct2, THEN conjunct1] y a
      command_is_one_chain [of None "js ''master''"
          "[commit_jan15, commit_feb16]", THEN conjunct2, THEN conjunct2, THEN conjunct1] n b
    by simp
qed

subsection \<open>Date separators\<close>

text \<open>
  What the code does: the row of the commit at index \<open>i\<close> starts with a separator when
  it is the first commit or when \<open>getDate\<close>, the day of the month, differs from the
  previous commit's.
\<close>

lemma separator_rule:
  assumes "commit_rows p inc ih commits i = Inr row"
  shows "length row = 2 \<and>
    (row ! 0 \<noteq> None \<longleftrightarrow>
       i = 0 \<or> getDate p (timestamp (commits ! i)) \<noteq> getDate p (timestamp (commits ! (i - 1)))) \<and>
    (\<exists>m. row ! 1 = Some (Commit_choice (fullHash (commits ! i)) m (commit_query p (commits ! i))))"
  using assms by (auto simp: commit_rows_def Let_def split: sum.splits if_splits)

text \<open>
  C2: the claim asks for a separator wherever the calendar date (day, month and year)
  changes. The code compares the day of the month only: for a commit of 15 January 2024
  followed by one of 15 February 2024 the list has no separator between the two
  entries, although their dates differ.
\<close>

theorem separator_missing_between_months:
  "utc_date (timestamp commit_jan15) = (2024, 1, 15) \<and>
   utc_date (timestamp commit_feb15) = (2024, 2, 15) \<and>
   choices utc_platform None [] [commit_jan15, commit_feb15]
     = Inr [Separator (Some (js ''Mon Jan 15 2024'')), choice_jan15, choice_feb15,
            Separator None]"
  by code_simp

subsection \<open>The run of the program\<close>

lemma fst_emit [simp]: "fst (emit evs r) = evs @ fst r"
  by (simp add: emit_def)

lemma snd_emit [simp]: "snd (emit evs r) = snd r"
  by (simp add: emit_def)

lemma executed_append [simp]: "executed (a @ b) = executed a @ executed b"
  by (induction a rule: executed.induct) simp_all

lemma executeShellCommand_events:
  "executed (fst (executeShellCommand w cmd)) = [cmd] \<and>
   list_all is_query_event (fst (executeShellCommand w cmd))"
  by (simp add: executeShellCommand_def split: option.splits)

lemma getCherryPickableFullHashes_events:
  "executed (fst (getCherryPickableFullHashes w f t)) = [cherry_query f t] \<and>
   list_all is_query_event (fst (getCherryPickableFullHashes w f t))"
  using executeShellCommand_events [of w "cherry_query f t"]
  by (auto simp: getCherryPickableFullHashes_def split: prod.splits sum.splits)

lemma getLatestCommits_events:
  "executed (fst (getLatestCommits p w f t)) = [log_query f t] \<and>
   list_all is_query_event (fst (getLatestCommits p w f t))"
  using executeShellCommand_events [of w "log_query f t"]
  by (auto simp: getLatestCommits_def split: prod.splits sum.splits)

lemma print_and_copy_events:
  "executed (fst (print_and_copy w cmd)) = [] \<and> (\<forall>n. snd (print_and_copy w cmd) \<noteq> Exited n)"
  by (simp add: print_and_copy_def split: option.splits bool.splits)

lemma length_sort_by_timestamp [simp]: "length (sort_by_timestamp xs) = length xs"
proof -
  have "length (List.map_filter id xs) + length (filter (\<lambda>x. x = None) xs) = length xs"
    by (induction xs) (auto simp: map_filter_simps split: option.splits)
  then show ?thesis by (simp add: sort_by_timestamp_def)
qed

lemma length_cherryPickCommits [simp]:
  "length (cherryPickCommits candidates picked) = length picked"
  by (simp add: cherryPickCommits_def)

lemma cherryPickCommits_Nil [simp]: "cherryPickCommits candidates picked = [] \<longleftrightarrow> picked = []"
  using length_cherryPickCommits [of candidates picked] by (simp only: length_0_conv [symmetric])

lemma build_command_cases:
  "executed (fst (build_command w b t cands picked)) = [] \<and>
   (\<forall>n. snd (build_command w b t cands picked) = Exited n \<longrightarrow>
      n = 0 \<and> picked = [] \<and>
      fst (build_command w b t cands picked) = [Log (js ''No commits were picked'')])"
  using print_and_copy_events
  by (auto simp: build_command_def Let_def split: sum.splits)

lemma select_commits_cases:
  "executed (fst (select_commits p w inc b t ih hs commits)) = [] \<and>
   (\<forall>n. snd (select_commits p w inc b t ih hs commits) = Exited n \<longrightarrow>
      n = 0 \<and>
      (fst (select_commits p w inc b t ih hs commits) = [Log (js ''No commits to pick from'')]
       \<or> (\<exists>cs. fst (select_commits p w inc b t ih hs commits)
              = [Ask_commits cs, Log (js ''Operation aborted by user'')])
       \<or> (\<exists>cs. fst (select_commits p w inc b t ih hs commits)
              = [Ask_commits cs, Log (js ''No commits were picked'')])))"
proof (cases "fromBranchCherryPickableCommits hs commits")
  case (Inl e)
  then show ?thesis by (simp add: select_commits_def)
next
  case cands: (Inr cands)
  show ?thesis
  proof (cases "length cands = 0")
    case True
    with cands show ?thesis by (simp add: select_commits_def)
  next
    case False
    show ?thesis
    proof (cases "choices p inc ih cands")
      case (Inl e)
      with cands False show ?thesis by (simp add: select_commits_def)
    next
      case cs: (Inr cs)
      show ?thesis
      proof (cases "autocomplete w cs")
        case None
        with cands False cs show ?thesis by (simp add: select_commits_def)
      next
        case (Some picked)
        with cands False cs build_command_cases [of w b t cands picked]
        show ?thesis by (simp add: select_commits_def)
      qed
    qed
  qed
qed

lemma main_help: "arg_help args \<Longrightarrow> main p env args w = ([Log (help_text env)], Exited 0)"
  by (simp add: main_def)

lemma main_cases:
  fixes p :: platform and env :: environment and args :: arguments and w :: world
  defines "q1 \<equiv> getCherryPickableFullHashes w (fromBranch env args) (toBranch env args)"
    and "q2 \<equiv> (if truthy (includeBranch env args)
                 then getCherryPickableFullHashes w (fromBranch env args)
                        (str_of (includeBranch env args))
                 else ([], Inr []))"
    and "q3 \<equiv> getLatestCommits p w (fromBranch env args) (toBranch env args)"
  assumes "\<not> arg_help args"
  shows "main p env args w =
    (case snd q1 of
       Inl e \<Rightarrow> (fst q1, Thrown e)
     | Inr fullHashes \<Rightarrow>
         (case snd q2 of
            Inl e \<Rightarrow> (fst q1 @ fst q2, Thrown e)
          | Inr includeHashes \<Rightarrow>
              (case snd q3 of
                 Inl e \<Rightarrow> (fst q1 @ fst q2 @ fst q3, Thrown e)
               | Inr fromBranchCommits \<Rightarrow>
                   emit (fst q1 @ fst q2 @ fst q3)
                     (select_commits p w (includeBranch env args) (cherryPickBranch args)
                        (toBranch env args) includeHashes fullHashes fromBranchCommits))))"
proof -
  obtain e1 r1 where 1: "q1 = (e1, r1)" by (cases q1)
  obtain e2 r2 where 2: "q2 = (e2, r2)" by (cases q2)
  obtain e3 r3 where 3: "q3 = (e3, r3)" by (cases q3)
  have "main p env args w =
    (case q1 of
          (evs1, Inl e) \<Rightarrow> (evs1, Thrown e)
        | (evs1, Inr fullHashes) \<Rightarrow>
            emit evs1
              (case q2 of
                 (evs2, Inl e) \<Rightarrow> (evs2, Thrown e)
               | (evs2, Inr includeHashes) \<Rightarrow>
                   emit evs2
                     (case q3 of
                        (evs3, Inl e) \<Rightarrow> (evs3, Thrown e)
                      | (evs3, Inr fromBranchCommits) \<Rightarrow>
                          emit evs3
                            (select_commits p w (includeBranch env args)
                               (cherryPickBranch args) (toBranch env args)
                               includeHashes fullHashes fromBranchCommits))))"
    using assms(4) unfolding main_def q1_def q2_def q3_def by simp
  then show ?thesis
    unfolding 1 2 3 by (cases r1; cases r2; cases r3) (simp_all add: emit_def)
qed

lemma queries_executed:
  "queries env args =
     executed (fst (getCherryPickableFullHashes w (fromBranch env args) (toBranch env args)))
     @ executed (fst (if truthy (includeBranch env args)
                 then getCherryPickableFullHashes w (fromBranch env args)
                        (str_of (includeBranch env args))
                 else ([], Inr [])))
     @ executed (fst (getLatestCommits p w (fromBranch env args) (toBranch env args)))"
  by (simp add: queries_def getCherryPickableFullHashes_events getLatestCommits_events)

lemma include_query_events:
  "list_all is_query_event (fst (if truthy inc
                 then getCherryPickableFullHashes w f (str_of inc)
                 else ([], Inr [])))"
  by (simp add: getCherryPickableFullHashes_events)

lemma main_fetched:
  assumes "\<not> arg_help args" "fetched p env args w = Some (hs, ih, commits)"
  shows "\<exists>qs. list_all is_query_event qs \<and>
     main p env args w = emit qs (select_commits p w (includeBranch env args)
        (cherryPickBranch args) (toBranch env args) ih hs commits)"
proof -
  let ?q1 = "getCherryPickableFullHashes w (fromBranch env args) (toBranch env args)"
  let ?q2 = "(if truthy (includeBranch env args)
                 then getCherryPickableFullHashes w (fromBranch env args)
                        (str_of (includeBranch env args))
                 else ([], Inr []))"
  let ?q3 = "getLatestCommits p w (fromBranch env args) (toBranch env args)"
  from assms(2) have s: "snd ?q1 = Inr hs" "snd ?q2 = Inr ih" "snd ?q3 = Inr commits"
    by (auto simp: fetched_def split: sum.splits)
  have "list_all is_query_event (fst ?q1 @ fst ?q2 @ fst ?q3)"
    using getCherryPickableFullHashes_events getLatestCommits_events include_query_events
    by (simp del: fst_conv)
  moreover have "main p env args w = emit (fst ?q1 @ fst ?q2 @ fst ?q3)
      (select_commits p w (includeBranch env args)
        (cherryPickBranch args) (toBranch env args) ih hs commits)"
    unfolding main_cases [OF assms(1)] s by simp
  ultimately show ?thesis by blast
qed

lemma main_executed: "prefix (executed (fst (main p env args w))) (queries env args)"
proof (cases "arg_help args")
  case True
  then show ?thesis by (simp add: main_help)
next
  case False
  let ?q1 = "getCherryPickableFullHashes w (fromBranch env args) (toBranch env args)"
  let ?q2 = "(if truthy (includeBranch env args)
                 then getCherryPickableFullHashes w (fromBranch env args)
                        (str_of (includeBranch env args))
                 else ([], Inr []))"
  let ?q3 = "getLatestCommits p w (fromBranch env args) (toBranch env args)"
  note q = queries_executed [of env args w p]
  show ?thesis
  proof (cases "snd ?q1")
    case (Inl e)
    then show ?thesis unfolding main_cases [OF False] q by simp
  next
    case 1: (Inr hs)
    show ?thesis
    proof (cases "snd ?q2")
      case (Inl e)
      with 1 show ?thesis unfolding main_cases [OF False] q by simp
    next
      case 2: (Inr ih)
      show ?thesis
      proof (cases "snd ?q3")
        case (Inl e)
        with 1 2 show ?thesis unfolding main_cases [OF False] q by simp
      next
        case 3: (Inr commits)
        with 1 2 show ?thesis
          unfolding main_cases [OF False] q
          by (simp add: select_commits_cases)
      qed
    qed
  qed
qed

subsection \<open>Nothing but the queries is executed\<close>

lemma trim_keeps_prefix:
  assumes "a \<noteq> []" "\<not> is_whitespace (hd a)" "\<not> is_whitespace (last a)"
  shows "prefix a (trim (a @ y))"
proof -
  have 1: "dropWhile is_whitespace (a @ y) = a @ y"
    using assms(1,2) by (cases a) auto
  have "hd (rev a) = last a"
    using assms(1) by (simp add: hd_rev)
  then have 2: "dropWhile is_whitespace (rev a) = rev a"
    using assms(1,3) by (cases "rev a") (simp_all del: rev_is_Nil_conv rev_eq_Cons_iff)
  have "\<exists>z. dropWhile is_whitespace (rev y @ rev a) = z @ rev a"
    using 2 by (auto simp: dropWhile_append)
  then obtain z where "dropWhile is_whitespace (rev (a @ y)) = z @ rev a"
    by auto
  then have "trim (a @ y) = a @ rev z"
    by (simp add: trim_def 1)
  then show ?thesis by simp
qed

lemma join_Cons: "\<exists>r. join sep (x # xs) = x @ r"
  by (cases xs) auto

lemma cherry_pick_lines_Inr:
  "cherry_pick_lines cs = Inr picks \<Longrightarrow>
   \<exists>cs'. cs = map Some cs' \<and> picks = map cherry_pick_command cs'"
proof (induction cs arbitrary: picks)
  case Nil
  then show ?case by (simp add: cherry_pick_lines_def)
next
  case (Cons c cs)
  from Cons.prems obtain c' rest where c: "c = Some c'"
    and rest: "cherry_pick_lines cs = Inr rest" and picks: "picks = cherry_pick_command c' # rest"
    by (cases c) (auto simp: cherry_pick_lines_def split: sum.splits)
  from Cons.IH [OF rest] obtain cs' where "cs = map Some cs'" "rest = map cherry_pick_command cs'"
    by blast
  with c picks have "c # cs = map Some (c' # cs') \<and> picks = map cherry_pick_command (c' # cs')"
    by simp
  then show ?case by (rule exI)
qed

lemma switch_prefix: "\<exists>r. switch_command b t = js ''git switch -c'' @ r"
proof -
  have "js ''git switch -c '' = js ''git switch -c'' @ [space]"
    by (simp add: js_def space_def)
  then have "switch_command b t = js ''git switch -c'' @ ([space] @ b @ js '' origin/'' @ t)"
    by (simp add: switch_command_def)
  then show ?thesis by (rule exI)
qed

lemma pick_prefix: "\<exists>r. cherry_pick_command c = js ''git cherry-pick'' @ r"
proof -
  have "js ''git cherry-pick '' = js ''git cherry-pick'' @ [space]"
    by (simp add: js_def space_def)
  then have "cherry_pick_command c = js ''git cherry-pick'' @ ([space] @ str_of (fullHash c))"
    by (simp add: cherry_pick_command_def)
  then show ?thesis by (rule exI)
qed

lemma heads_not_whitespace:
  "js ''git switch -c'' \<noteq> [] \<and> \<not> is_whitespace (hd (js ''git switch -c'')) \<and>
   \<not> is_whitespace (last (js ''git switch -c'')) \<and>
   js ''git cherry-pick'' \<noteq> [] \<and> \<not> is_whitespace (hd (js ''git cherry-pick'')) \<and>
   \<not> is_whitespace (last (js ''git cherry-pick''))"
  by (simp add: js_def is_whitespace_def)

lemma command_prefix:
  assumes "command b t cs = Inr cmd"
  shows "cmd = [] \<or> prefix (js ''git switch -c'') cmd \<or> prefix (js ''git cherry-pick'') cmd"
proof -
  from assms obtain picks where p: "cherry_pick_lines cs = Inr picks"
    by (auto simp: command_def command_lines_def split: sum.splits)
  then obtain cs' where cs: "cs = map Some cs'"
    using cherry_pick_lines_Inr by blast
  let ?lines = "(if truthy b then [switch_command (str_of b) t] else [])
          @ map cherry_pick_command cs'
          @ (if truthy b then [push_command (str_of b), pr_command (str_of b) t] else [])"
  have cmd: "cmd = trim (join chain ?lines)"
    using assms unfolding cs command_defined by simp
  show ?thesis
  proof (cases "truthy b")
    case True
    then obtain rest where "?lines = switch_command (str_of b) t # rest"
      by simp
    then obtain r where "join chain ?lines = js ''git switch -c'' @ r"
      using join_Cons [of chain "switch_command (str_of b) t" rest] switch_prefix [of "str_of b" t]
      by auto
    then show ?thesis
      unfolding cmd using trim_keeps_prefix heads_not_whitespace by simp
  next
    case False
    show ?thesis
    proof (cases cs')
      case Nil
      with False show ?thesis unfolding cmd by (simp add: trim_def)
    next
      case (Cons c rest)
      with False have "?lines = cherry_pick_command c # map cherry_pick_command rest"
        by simp
      then obtain r where "join chain ?lines = js ''git cherry-pick'' @ r"
        using join_Cons [of chain "cherry_pick_command c" "map cherry_pick_command rest"]
          pick_prefix [of c]
        by auto
      then show ?thesis
        unfolding cmd using trim_keeps_prefix heads_not_whitespace by simp
    qed
  qed
qed

lemma queries_prefix:
  assumes "q \<in> set (queries env args)"
  shows "prefix (js ''git cherry origin/'') q \<or> prefix (js ''git --no-pager'') q"
proof -
  have "js ''git --no-pager log --pretty=format:''
      = js ''git --no-pager'' @ js '' log --pretty=format:''"
    by (simp add: js_def)
  then have "prefix (js ''git --no-pager'') (log_query f t)" for f t
    by (simp add: log_query_def)
  moreover have "prefix (js ''git cherry origin/'') (cherry_query f t)" for f t
    by (simp add: cherry_query_def)
  ultimately show ?thesis
    using assms by (auto simp: queries_def split: if_splits)
qed

lemma heads_differ:
  "\<not> prefix (js ''git switch -c'') (js ''git cherry origin/'') \<and>
   \<not> prefix (js ''git cherry origin/'') (js ''git switch -c'') \<and>
   \<not> prefix (js ''git switch -c'') (js ''git --no-pager'') \<and>
   \<not> prefix (js ''git --no-pager'') (js ''git switch -c'') \<and>
   \<not> prefix (js ''git cherry-pick'') (js ''git cherry origin/'') \<and>
   \<not> prefix (js ''git cherry origin/'') (js ''git cherry-pick'') \<and>
   \<not> prefix (js ''git cherry-pick'') (js ''git --no-pager'') \<and>
   \<not> prefix (js ''git --no-pager'') (js ''git cherry-pick'') \<and>
   js ''git cherry origin/'' \<noteq> [] \<and> js ''git --no-pager'' \<noteq> []"
  by (simp add: js_def)

lemma command_not_query:
  assumes "command b t cs = Inr cmd"
  shows "cmd \<notin> set (queries env args)"
proof
  assume "cmd \<in> set (queries env args)"
  then obtain Q where Q: "Q = js ''git cherry origin/'' \<or> Q = js ''git --no-pager''"
    and qc: "prefix Q cmd"
    using queries_prefix by blast
  from Q heads_differ have "Q \<noteq> []"
    by auto
  with qc have "cmd \<noteq> []"
    by auto
  with command_prefix [OF assms] obtain P
    where P: "P = js ''git switch -c'' \<or> P = js ''git cherry-pick''" and pc: "prefix P cmd"
    by blast
  from pc qc have "prefix P Q \<or> prefix Q P"
    by (rule prefix_same_cases)
  with P Q heads_differ show False
    by blast
qed

text \<open>
  What holds of every run: the commands it passes to \<open>execSync\<close> are, in order, a
  beginning of the list of its queries (the cherry comparison with the target branch,
  the one with the include branch if there is one, the commit log), and no text that
  \<open>command\<close> produces is equal to one of them.
\<close>

lemma executed_are_queries:
  "prefix (executed (fst (main p env args w))) (queries env args) \<and>
   (command b t cs = Inr cmd \<longrightarrow> cmd \<notin> set (executed (fst (main p env args w))))"
  using main_executed [of p env args w] command_not_query [of b t cs cmd env args]
    set_mono_prefix [of "executed (fst (main p env args w))" "queries env args"]
  by blast

lemma command_sample:
  "command (Some (js ''CP-1-x'')) (js ''master'') [Some commit_jan15, Some commit_feb16]
     = Inr sample_command"
  by code_simp

lemma sample_run:
  "main utc_platform sample_environment with_branch sample_world
     = ([Log (js ''> '' @ cherry_query (js ''dev'') (js ''master'')),
         Exec (cherry_query (js ''dev'') (js ''master'')),
         Log_returned 4,
         Log (js ''> '' @ log_query (js ''dev'') (js ''master'')),
         Exec (log_query (js ''dev'') (js ''master'')),
         Log_returned 3,
         Ask_commits sample_choices,
         Log [], Log sample_command, Log [],
         Ask_copy,
         Clipboard sample_command,
         Log (js ''Copied to clipboard!'')],
        Finished) \<and>
   sample_command
     \<notin> set (executed (fst (main utc_platform sample_environment with_branch sample_world)))"
proof -
  have run: "main utc_platform sample_environment with_branch sample_world
     = ([Log (js ''> '' @ cherry_query (js ''dev'') (js ''master'')),
         Exec (cherry_query (js ''dev'') (js ''master'')),
         Log_returned 4,
         Log (js ''> '' @ log_query (js ''dev'') (js ''master'')),
         Exec (log_query (js ''dev'') (js ''master'')),
         Log_returned 3,
         Ask_commits sample_choices,
         Log [], Log sample_command, Log [],
         Ask_copy,
         Clipboard sample_command,
         Log (js ''Copied to clipboard!'')],
        Finished)"
    by code_simp
  have "sample_command
     \<notin> set (executed (fst (main utc_platform sample_environment with_branch sample_world)))"
    using executed_are_queries [of utc_platform sample_environment with_branch sample_world
        "Some (js ''CP-1-x'')" "js ''master''" "[Some commit_jan15, Some commit_feb16]"
        sample_command, THEN conjunct2] command_sample
    by blast
  with run show ?thesis by blast
qed

text \<open>
  C3: the claim says that nothing but the two read-only queries is run, so that the
  program changes nothing in the repository, and the help text of the program says the
  same ("This command does not perform any modification actions."). The queries are
  built by writing the branch names into a shell command as they are: started with
  \<open>--from "dev; git cherry-pick a1a1"\<close>, the program hands the shell a command line that
  ends in a cherry-pick, the very text it later prints as the generated command.
\<close>

theorem branch_name_reaches_the_shell:
  "main utc_platform sample_environment injected_arguments injected_world
     = ([Log (js ''> git cherry origin/master origin/dev; git cherry-pick a1a1''),
         Exec (js ''git cherry origin/master origin/dev; git cherry-pick a1a1''),
         Log_returned 4,
         Log (js ''> '' @ log_query (js ''dev; git cherry-pick a1a1'') (js ''master'')),
         Exec (js ''git --no-pager log --pretty=format:'' @ [double_quote]
               @ js ''%at:;:%h:;:%H:;:%an:;:%s'' @ [double_quote]
               @ js '' origin/dev; git cherry-pick a1a1 --not origin/master''),
         Log_returned 3,
         Ask_commits sample_choices,
         Log [], Log (js ''git cherry-pick a1a1''), Log [],
         Ask_copy,
         Clipboard (js ''git cherry-pick a1a1''),
         Log (js ''Copied to clipboard!'')],
        Finished)"
  by code_simp

subsection \<open>A missing commit\<close>

lemma first_missing_Some:
  "first_missing hs commits = Some h0 \<Longrightarrow>
   fromBranchCherryPickableCommits hs commits = Inl (Missing_commit h0)"
proof (induction hs)
  case Nil
  then show ?case by (simp add: first_missing_def)
next
  case (Cons h hs)
  show ?case
  proof (cases "find_commit commits h")
    case None
    with Cons.prems show ?thesis
      by (simp add: first_missing_def fromBranchCherryPickableCommits_def)
  next
    case (Some c)
    with Cons.prems have "first_missing hs commits = Some h0"
      by (simp add: first_missing_def)
    from Cons.IH [OF this] Some show ?thesis
      by (simp add: fromBranchCherryPickableCommits_def split: sum.splits)
  qed
qed

lemma first_missing_exists:
  assumes "h \<in> set hs" "\<forall>c \<in> set commits. fullHash c \<noteq> Some h"
  shows "\<exists>h0. first_missing hs commits = Some h0"
proof -
  have "find_commit commits h = None"
    using assms(2) by (simp add: find_commit_None)
  with assms(1) have "List.find (\<lambda>h. find_commit commits h = None) hs \<noteq> None"
    by (auto simp: find_None_iff)
  then show ?thesis by (auto simp: first_missing_def)
qed

text \<open>
  C4: when the help is not asked for, the queries all succeed, and some cherry-pickable
  full hash has no commit in the log, the run ends with the exception
  \<open>Missing commit: h0\<close> for the first such hash \<open>h0\<close>, so with exit status 1, and
  everything it did before was to run the queries and print their progress lines: no
  prompt, no command.
\<close>

theorem missing_commit_is_fatal:
  assumes "\<not> arg_help args"
    and "fetched p env args w = Some (hs, ih, commits)"
    and "h \<in> set hs" "\<forall>c \<in> set commits. fullHash c \<noteq> Some h"
  shows "\<exists>h0. first_missing hs commits = Some h0 \<and>
     snd (main p env args w) = Thrown (Missing_commit h0) \<and>
     exit_status (snd (main p env args w)) = 1 \<and>
     list_all is_query_event (fst (main p env args w))"
proof -
  from first_missing_exists [OF assms(3,4)] obtain h0
    where h0: "first_missing hs commits = Some h0" by blast
  have sc: "select_commits p w (includeBranch env args) (cherryPickBranch args)
      (toBranch env args) ih hs commits = ([], Thrown (Missing_commit h0))"
    by (simp add: select_commits_def first_missing_Some [OF h0])
  from main_fetched [OF assms(1,2)] obtain qs where
    "list_all is_query_event qs" "main p env args w = emit qs ([], Thrown (Missing_commit h0))"
    unfolding sc by blast
  with h0 show ?thesis by (simp add: emit_def)
qed

theorem missing_commit_is_fatal_witness:
  "snd (main utc_platform sample_environment sample_arguments short_log)
     = Thrown (Missing_commit (js ''b2b2'')) \<and>
   exit_status (snd (main utc_platform sample_environment sample_arguments short_log)) = 1 \<and>
   list_all is_query_event
     (fst (main utc_platform sample_environment sample_arguments short_log))"
proof -
  have a: "\<not> arg_help sample_arguments"
    by (simp add: sample_arguments_def)
  have f: "fetched utc_platform sample_environment sample_arguments short_log
      = Some ([js ''c3c3'', js ''b2b2'', js ''a1a1''], [], [commit_feb16])"
    by code_simp
  have m: "js ''a1a1'' \<in> set [js ''c3c3'', js ''b2b2'', js ''a1a1'']"
    by simp
  have n: "\<forall>c \<in> set [commit_feb16]. fullHash c \<noteq> Some (js ''a1a1'')"
    by code_simp
  have fm: "first_missing [js ''c3c3'', js ''b2b2'', js ''a1a1''] [commit_feb16]
      = Some (js ''b2b2'')"
    by code_simp
  from missing_commit_is_fatal [OF a f m n] fm show ?thesis
    by auto
qed

subsection \<open>Early exits\<close>

lemma select_commits_nothing:
  "select_commits p w inc b t ih [] commits = ([Log (js ''No commits to pick from'')], Exited 0)"
  by (simp add: select_commits_def fromBranchCherryPickableCommits_def)

lemma select_commits_aborted:
  assumes "fromBranchCherryPickableCommits hs commits = Inr cands" "cands \<noteq> []"
    and "choices p inc ih cands = Inr cs" "autocomplete w cs = None"
  shows "select_commits p w inc b t ih hs commits
     = ([Ask_commits cs, Log (js ''Operation aborted by user'')], Exited 0)"
  using assms by (simp add: select_commits_def)

lemma select_commits_none_picked:
  assumes "fromBranchCherryPickableCommits hs commits = Inr cands" "cands \<noteq> []"
    and "choices p inc ih cands = Inr cs" "autocomplete w cs = Some []"
  shows "select_commits p w inc b t ih hs commits
     = ([Ask_commits cs, Log (js ''No commits were picked'')], Exited 0)"
  using assms by (simp add: select_commits_def build_command_def emit_def)

lemma main_exit:
  assumes "snd (main p env args w) = Exited n"
  shows "n = 0 \<and> fst (main p env args w) \<noteq> [] \<and>
     last (fst (main p env args w)) \<in> Log ` set (exit_messages env) \<and>
     list_all (\<lambda>ev. is_query_event ev \<or> is_prompt_event ev) (butlast (fst (main p env args w)))"
proof (cases "arg_help args")
  case True
  with assms show ?thesis by (simp add: main_help exit_messages_def)
next
  case False
  let ?q1 = "getCherryPickableFullHashes w (fromBranch env args) (toBranch env args)"
  let ?q2 = "(if truthy (includeBranch env args)
                 then getCherryPickableFullHashes w (fromBranch env args)
                        (str_of (includeBranch env args))
                 else ([], Inr []))"
  let ?q3 = "getLatestCommits p w (fromBranch env args) (toBranch env args)"
  from assms obtain hs ih commits where
    s: "snd ?q1 = Inr hs" "snd ?q2 = Inr ih" "snd ?q3 = Inr commits"
    unfolding main_cases [OF False] by (auto split: sum.splits)
  then have "fetched p env args w = Some (hs, ih, commits)"
    by (simp add: fetched_def)
  from main_fetched [OF False this] obtain qs where qs: "list_all is_query_event qs"
    and m: "main p env args w = emit qs (select_commits p w (includeBranch env args)
        (cherryPickBranch args) (toBranch env args) ih hs commits)"
    by blast
  let ?sc = "select_commits p w (includeBranch env args)
        (cherryPickBranch args) (toBranch env args) ih hs commits"
  from assms m have ex: "snd ?sc = Exited n"
    by simp
  have q: "list_all (\<lambda>ev. is_query_event ev \<or> is_prompt_event ev) qs"
    using qs by (induction qs) auto
  from select_commits_cases [of p w "includeBranch env args" "cherryPickBranch args"
      "toBranch env args" ih hs commits] ex
  have n: "n = 0" and
    c: "fst ?sc = [Log (js ''No commits to pick from'')]
       \<or> (\<exists>cs. fst ?sc = [Ask_commits cs, Log (js ''Operation aborted by user'')])
       \<or> (\<exists>cs. fst ?sc = [Ask_commits cs, Log (js ''No commits were picked'')])"
    by blast+
  from c show ?thesis
  proof (elim disjE exE)
    assume "fst ?sc = [Log (js ''No commits to pick from'')]"
    with n q show ?thesis unfolding m by (simp add: exit_messages_def)
  next
    fix cs assume "fst ?sc = [Ask_commits cs, Log (js ''Operation aborted by user'')]"
    with n q show ?thesis unfolding m by (simp add: exit_messages_def butlast_append)
  next
    fix cs assume "fst ?sc = [Ask_commits cs, Log (js ''No commits were picked'')]"
    with n q show ?thesis unfolding m by (simp add: exit_messages_def butlast_append)
  qed
qed

lemma help_text_start:
  "prefix (newline # js ''Quickly select commits to cherry-pick.'' @ [newline]) (help_text env)"
proof -
  have "\<exists>r. help_text env
      = (newline # js ''Quickly select commits to cherry-pick.'' @ [newline]) @ r"
    unfolding help_text_def by (simp only: join.simps append_Nil append_Cons append_assoc) blast
  then show ?thesis by (auto simp: prefix_def)
qed

lemma help_text_not_empty: "help_text env \<noteq> []"
  using help_text_start [of env] by auto

lemma exit_messages_not_empty: "[] \<notin> set (exit_messages env)"
  using help_text_not_empty [of env] by (auto simp: exit_messages_def js_def)

lemma help_sample: "help_text sample_environment = sample_help"
  by code_simp

lemma early_exit_paths:
  "(arg_help args \<longrightarrow> main p env args w = ([Log (help_text env)], Exited 0)) \<and>
   (\<not> arg_help args \<and> fetched p env args w = Some ([], ih, commits) \<longrightarrow>
      snd (main p env args w) = Exited 0 \<and>
      last (fst (main p env args w)) = Log (js ''No commits to pick from'')) \<and>
   (\<not> arg_help args \<and> fetched p env args w = Some (hs, ih, commits) \<and>
    fromBranchCherryPickableCommits hs commits = Inr cands \<and> cands \<noteq> [] \<and>
    choices p (includeBranch env args) ih cands = Inr cs \<and> autocomplete w cs = None \<longrightarrow>
      snd (main p env args w) = Exited 0 \<and>
      last (fst (main p env args w)) = Log (js ''Operation aborted by user'')) \<and>
   (\<not> arg_help args \<and> fetched p env args w = Some (hs, ih, commits) \<and>
    fromBranchCherryPickableCommits hs commits = Inr cands \<and> cands \<noteq> [] \<and>
    choices p (includeBranch env args) ih cands = Inr cs \<and> autocomplete w cs = Some [] \<longrightarrow>
      snd (main p env args w) = Exited 0 \<and>
      last (fst (main p env args w)) = Log (js ''No commits were picked'')) \<and>
   (snd (main p env args w) = Exited n \<longrightarrow>
      n = 0 \<and> exit_status (snd (main p env args w)) = 0 \<and>
      last (fst (main p env args w)) \<in> Log ` set (exit_messages env) \<and>
      list_all (\<lambda>ev. is_query_event ev \<or> is_prompt_event ev)
        (butlast (fst (main p env args w))))"
proof (intro conjI impI)
  assume "arg_help args"
  then show "main p env args w = ([Log (help_text env)], Exited 0)"
    by (rule main_help)
next
  assume a: "\<not> arg_help args \<and> fetched p env args w = Some ([], ih, commits)"
  then obtain qs where "main p env args w = emit qs (select_commits p w (includeBranch env args)
        (cherryPickBranch args) (toBranch env args) ih [] commits)"
    using main_fetched by blast
  then have m: "main p env args w = (qs @ [Log (js ''No commits to pick from'')], Exited 0)"
    by (simp add: select_commits_nothing emit_def)
  show "snd (main p env args w) = Exited 0"
    and "last (fst (main p env args w)) = Log (js ''No commits to pick from'')"
    unfolding m by simp_all
next
  assume a: "\<not> arg_help args \<and> fetched p env args w = Some (hs, ih, commits) \<and>
    fromBranchCherryPickableCommits hs commits = Inr cands \<and> cands \<noteq> [] \<and>
    choices p (includeBranch env args) ih cands = Inr cs \<and> autocomplete w cs = None"
  then obtain qs where "main p env args w = emit qs (select_commits p w (includeBranch env args)
        (cherryPickBranch args) (toBranch env args) ih hs commits)"
    using main_fetched by blast
  with a have m: "main p env args w
      = (qs @ [Ask_commits cs, Log (js ''Operation aborted by user'')], Exited 0)"
    by (simp add: select_commits_aborted emit_def)
  show "snd (main p env args w) = Exited 0"
    and "last (fst (main p env args w)) = Log (js ''Operation aborted by user'')"
    unfolding m by simp_all
next
  assume a: "\<not> arg_help args \<and> fetched p env args w = Some (hs, ih, commits) \<and>
    fromBranchCherryPickableCommits hs commits = Inr cands \<and> cands \<noteq> [] \<and>
    choices p (includeBranch env args) ih cands = Inr cs \<and> autocomplete w cs = Some []"
  then obtain qs where "main p env args w = emit qs (select_commits p w (includeBranch env args)
        (cherryPickBranch args) (toBranch env args) ih hs commits)"
    using main_fetched by blast
  with a have m: "main p env args w
      = (qs @ [Ask_commits cs, Log (js ''No commits were picked'')], Exited 0)"
    by (simp add: select_commits_none_picked emit_def)
  show "snd (main p env args w) = Exited 0"
    and "last (fst (main p env args w)) = Log (js ''No commits were picked'')"
    unfolding m by simp_all
next
  assume e: "snd (main p env args w) = Exited n"
  from main_exit [OF e] e
  show "n = 0" and "exit_status (snd (main p env args w)) = 0"
    and "last (fst (main p env args w)) \<in> Log ` set (exit_messages env)"
    and "list_all (\<lambda>ev. is_query_event ev \<or> is_prompt_event ev)
        (butlast (fst (main p env args w)))"
    by simp_all
qed


text \<open>
  C7: each early exit (help; no cherry-pickable commit; the prompt cancelled; nothing
  picked) ends the run with \<open>process.exit(0)\<close> right after its message; and whenever a
  run ends with \<open>process.exit\<close>, the status is 0, the last event is one of the four
  messages, and every event before it is a query event or the prompt for the commits:
  no command was printed and the copy was not offered. None of the four messages is
  empty, and the help starts with an empty line and the line
  \<open>Quickly select commits to cherry-pick.\<close>
\<close>

theorem early_exits:
  "(arg_help args \<longrightarrow> main p env args w = ([Log (help_text env)], Exited 0)) \<and>
   (\<not> arg_help args \<and> fetched p env args w = Some ([], ih, commits) \<longrightarrow>
      snd (main p env args w) = Exited 0 \<and>
      last (fst (main p env args w)) = Log (js ''No commits to pick from'')) \<and>
   (\<not> arg_help args \<and> fetched p env args w = Some (hs, ih, commits) \<and>
    fromBranchCherryPickableCommits hs commits = Inr cands \<and> cands \<noteq> [] \<and>
    choices p (includeBranch env args) ih cands = Inr cs \<and> autocomplete w cs = None \<longrightarrow>
      snd (main p env args w) = Exited 0 \<and>
      last (fst (main p env args w)) = Log (js ''Operation aborted by user'')) \<and>
   (\<not> arg_help args \<and> fetched p env args w = Some (hs, ih, commits) \<and>
    fromBranchCherryPickableCommits hs commits = Inr cands \<and> cands \<noteq> [] \<and>
    choices p (includeBranch env args) ih cands = Inr cs \<and> autocomplete w cs = Some [] \<longrightarrow>
      snd (main p env args w) = Exited 0 \<and>
      last (fst (main p env args w)) = Log (js ''No commits were picked'')) \<and>
   (snd (main p env args w) = Exited n \<longrightarrow>
      n = 0 \<and> exit_status (snd (main p env args w)) = 0 \<and>
      last (fst (main p env args w)) \<in> Log ` set (exit_messages env) \<and>
      list_all (\<lambda>ev. is_query_event ev \<or> is_prompt_event ev)
        (butlast (fst (main p env args w)))) \<and>
   prefix (newline # js ''Quickly select commits to cherry-pick.'' @ [newline])
     (help_text env) \<and>
   [] \<notin> set (exit_messages env)"
proof -
  note e = early_exit_paths [of args p env w ih commits hs cands cs n]
  show ?thesis
    using e [THEN conjunct1] e [THEN conjunct2, THEN conjunct1]
      e [THEN conjunct2, THEN conjunct2, THEN conjunct1]
      e [THEN conjunct2, THEN conjunct2, THEN conjunct2, THEN conjunct1]
      e [THEN conjunct2, THEN conjunct2, THEN conjunct2, THEN conjunct2]
      help_text_start [of env] exit_messages_not_empty [of env]
    by (intro conjI)
qed

theorem early_exits_witness:
  "main utc_platform sample_environment (sample_arguments \<lparr> arg_help := True \<rparr>) sample_world
     = ([Log sample_help], Exited 0) \<and>
   snd (main utc_platform sample_environment sample_arguments nothing_picked) = Exited 0 \<and>
   last (fst (main utc_platform sample_environment sample_arguments nothing_picked))
     = Log (js ''No commits were picked'') \<and>
   list_all (\<lambda>ev. is_query_event ev \<or> is_prompt_event ev)
     (butlast (fst (main utc_platform sample_environment sample_arguments nothing_picked)))"
proof -
  have h: "arg_help (sample_arguments \<lparr> arg_help := True \<rparr>)"
    by simp
  have a: "\<not> arg_help sample_arguments"
    by (simp add: sample_arguments_def)
  have f: "fetched utc_platform sample_environment sample_arguments nothing_picked
      = Some ([js ''c3c3'', js ''b2b2'', js ''a1a1''], [],
              [commit_feb16, commit_feb15, commit_jan15])"
    by code_simp
  have c: "fromBranchCherryPickableCommits [js ''c3c3'', js ''b2b2'', js ''a1a1'']
      [commit_feb16, commit_feb15, commit_jan15] = Inr [commit_jan15, commit_feb15, commit_feb16]"
    by code_simp
  have i: "includeBranch sample_environment sample_arguments = None"
    by code_simp
  have k: "choices utc_platform (includeBranch sample_environment sample_arguments) []
      [commit_jan15, commit_feb15, commit_feb16] = Inr sample_choices"
    unfolding i by (rule choices_sample)
  have n: "autocomplete nothing_picked sample_choices = Some []"
    by (simp add: nothing_picked_def)
  note e = early_exits [of _ utc_platform sample_environment]
  have 1: "main utc_platform sample_environment (sample_arguments \<lparr> arg_help := True \<rparr>)
      sample_world = ([Log sample_help], Exited 0)"
    using e [THEN conjunct1] h help_sample by simp
  have 2: "snd (main utc_platform sample_environment sample_arguments nothing_picked) = Exited 0
      \<and> last (fst (main utc_platform sample_environment sample_arguments nothing_picked))
          = Log (js ''No commits were picked'')"
    using e [of sample_arguments nothing_picked _ _ "[js ''c3c3'', js ''b2b2'', js ''a1a1'']"
        "[commit_jan15, commit_feb15, commit_feb16]" sample_choices,
        THEN conjunct2, THEN conjunct2, THEN conjunct2, THEN conjunct1] a f c k n
    by blast
  have 3: "list_all (\<lambda>ev. is_query_event ev \<or> is_prompt_event ev)
     (butlast (fst (main utc_platform sample_environment sample_arguments nothing_picked)))"
    using e [of sample_arguments nothing_picked _ _ _ _ _ 0,
        THEN conjunct2, THEN conjunct2, THEN conjunct2, THEN conjunct2] 2
    by blast
  show ?thesis
    using 1 2 3 by blast
qed

end
